theory Spec2Isabelle
  imports Complex_Main "HOL-Library.Log_Nat"
begin

section \<open>Strings\<close>

text \<open>
  A JavaScript string is modelled as a \<open>string\<close>: one \<open>char\<close> per code unit, for the
  code units below 256. The functions below only tell apart ASCII letters, digits, the
  point, the signs and white space; every other code unit takes the same branches as
  any non-matching character.
\<close>

definition code :: "char \<Rightarrow> int" where
  "code c = of_char c"

text \<open>White space and line terminators of ECMAScript among the first 256 code units.\<close>

definition is_ws :: "char \<Rightarrow> bool" where
  "is_ws c = (code c = 9 \<or> code c = 10 \<or> code c = 11 \<or> code c = 12 \<or> code c = 13
     \<or> code c = 32 \<or> code c = 160)"

text \<open>\<open>String.prototype.trim\<close>.\<close>

definition trim :: "string \<Rightarrow> string" where
  "trim s = rev (dropWhile is_ws (rev (dropWhile is_ws s)))"

text \<open>\<open>String.prototype.startsWith\<close> and \<open>endsWith\<close>.\<close>

definition startsWith :: "string \<Rightarrow> string \<Rightarrow> bool" where
  "startsWith s p = (take (length p) s = p)"

definition endsWith :: "string \<Rightarrow> string \<Rightarrow> bool" where
  "endsWith s p = (length p \<le> length s \<and> drop (length s - length p) s = p)"

definition is_digit :: "char \<Rightarrow> bool" where
  "is_digit c = (48 \<le> code c \<and> code c \<le> 57)"

definition digit_val :: "char \<Rightarrow> int" where
  "digit_val c = code c - 48"

definition digit_char :: "int \<Rightarrow> char" where
  "digit_char d = char_of (48 + d)"

text \<open>
  The decimal digits of a non-negative integer, as \<open>toString\<close> prints it. Integers
  are of type \<open>int\<close> throughout, also where they cannot be negative.
\<close>

function show_nat :: "int \<Rightarrow> string" where
  "show_nat n = (if n < 10 then [digit_char n] else show_nat (n div 10) @ [digit_char (n mod 10)])"
  by pat_completeness auto
termination
  by (relation "measure nat") auto

declare show_nat.simps [simp del]

section \<open>Numbers\<close>

text \<open>
  A JavaScript number is an IEEE 754 binary64 value. A finite one is modelled by the
  rational number it denotes; every arithmetic operation computes the exact rational
  result and rounds it to the nearest binary64 value, ties to the even significand, as
  the standard prescribes. The sign of zero is not modelled: none of the functions
  below divides by zero or prints a zero whose sign could show.
\<close>

datatype number = NaN | NegInf | Fin rat | PosInf

text \<open>Round to the nearest integer, ties to even.\<close>

definition round_even :: "rat \<Rightarrow> int" where
  "round_even x =
     (let f = \<lfloor>x\<rfloor>; d = x - of_int f
      in if d < 1 / 2 then f else if 1 / 2 < d then f + 1 else if even f then f else f + 1)"

text \<open>The binary exponent of a positive rational: \<open>2 powi ilog2 x \<le> x < 2 powi (ilog2 x + 1)\<close>.\<close>

definition ilog2 :: "rat \<Rightarrow> int" where
  "ilog2 x =
     (let (p, q) = quotient_of x; k = bitlen p - bitlen q
      in if 2 powi k \<le> x then k else k - 1)"

text \<open>
  The exponent of the unit in the last place: 53 significant bits for a normal number,
  the fixed exponent \<open>-1074\<close> for a subnormal one.
\<close>

definition ulp_exp :: "rat \<Rightarrow> int" where
  "ulp_exp x = max (ilog2 \<bar>x\<bar> - 52) (- 1074)"

text \<open>The nearest binary64 value, the exponent range unbounded above.\<close>

definition fl :: "rat \<Rightarrow> rat" where
  "fl x =
     (if x = 0 then 0
      else let e = ulp_exp x
           in sgn x * of_int (round_even (\<bar>x\<bar> / 2 powi e)) * 2 powi e)"

text \<open>The bound of the finite binary64 values.\<close>

definition double_limit :: rat where
  "double_limit = 2 ^ 1024"

text \<open>Rounding with overflow: a rounded magnitude of \<open>2 ^ 1024\<close> or more is an infinity.\<close>

definition to_number :: "rat \<Rightarrow> number" where
  "to_number x =
     (let y = fl x
      in if double_limit \<le> y then PosInf else if y \<le> - double_limit then NegInf else Fin y)"

text \<open>The finite binary64 values.\<close>

definition is_double :: "rat \<Rightarrow> bool" where
  "is_double x = (fl x = x \<and> \<bar>x\<bar> < double_limit)"

text \<open>\<open>a - b\<close>, \<open>a * b\<close> and \<open>a / b\<close>.\<close>

fun num_sub :: "number \<Rightarrow> number \<Rightarrow> number" where
  "num_sub (Fin x) (Fin y) = to_number (x - y)"
| "num_sub NaN b = NaN"
| "num_sub a NaN = NaN"
| "num_sub PosInf PosInf = NaN"
| "num_sub NegInf NegInf = NaN"
| "num_sub PosInf b = PosInf"
| "num_sub NegInf b = NegInf"
| "num_sub a PosInf = NegInf"
| "num_sub a NegInf = PosInf"

text \<open>\<open>a + b\<close>.\<close>

fun num_add :: "number \<Rightarrow> number \<Rightarrow> number" where
  "num_add (Fin x) (Fin y) = to_number (x + y)"
| "num_add NaN b = NaN"
| "num_add a NaN = NaN"
| "num_add PosInf NegInf = NaN"
| "num_add NegInf PosInf = NaN"
| "num_add PosInf b = PosInf"
| "num_add NegInf b = NegInf"
| "num_add a b = b"

text \<open>The rational that a finite number denotes.\<close>

fun the_fin :: "number \<Rightarrow> rat" where
  "the_fin (Fin x) = x"
| "the_fin a = 0"

text \<open>The sign of a number that is not \<open>NaN\<close>.\<close>

fun num_sign :: "number \<Rightarrow> int" where
  "num_sign (Fin x) = (if 0 < x then 1 else if x < 0 then - 1 else 0)"
| "num_sign PosInf = 1"
| "num_sign NegInf = - 1"
| "num_sign NaN = 0"

definition signed_inf :: "int \<Rightarrow> number" where
  "signed_inf s = (if s = 0 then NaN else if 0 < s then PosInf else NegInf)"

fun num_mul :: "number \<Rightarrow> number \<Rightarrow> number" where
  "num_mul (Fin x) (Fin y) = to_number (x * y)"
| "num_mul NaN b = NaN"
| "num_mul a NaN = NaN"
| "num_mul a b = signed_inf (num_sign a * num_sign b)"

fun num_div :: "number \<Rightarrow> number \<Rightarrow> number" where
  "num_div (Fin x) (Fin y) =
     (if y = 0 then signed_inf (num_sign (Fin x)) else to_number (x / y))"
| "num_div NaN b = NaN"
| "num_div a NaN = NaN"
| "num_div (Fin x) b = Fin 0"
| "num_div a (Fin y) = signed_inf (num_sign a * (if y < 0 then - 1 else 1))"
| "num_div a b = NaN"

text \<open>\<open>a < b\<close> and \<open>a <= b\<close>: false as soon as one side is \<open>NaN\<close>.\<close>

fun num_lt :: "number \<Rightarrow> number \<Rightarrow> bool" where
  "num_lt (Fin x) (Fin y) = (x < y)"
| "num_lt NaN b = False"
| "num_lt a NaN = False"
| "num_lt PosInf b = False"
| "num_lt a NegInf = False"
| "num_lt a b = True"

fun num_le :: "number \<Rightarrow> number \<Rightarrow> bool" where
  "num_le (Fin x) (Fin y) = (x \<le> y)"
| "num_le NaN b = False"
| "num_le a NaN = False"
| "num_le NegInf b = True"
| "num_le a PosInf = True"
| "num_le a b = False"

text \<open>\<open>Math.min\<close> and \<open>Math.max\<close> of two arguments.\<close>

definition Math_min :: "number \<Rightarrow> number \<Rightarrow> number" where
  "Math_min a b = (if a = NaN \<or> b = NaN then NaN else if num_le a b then a else b)"

definition Math_max :: "number \<Rightarrow> number \<Rightarrow> number" where
  "Math_max a b = (if a = NaN \<or> b = NaN then NaN else if num_le a b then b else a)"

text \<open>\<open>Number.isFinite\<close> (and the global \<open>isFinite\<close> on a number) and \<open>isNaN\<close>.\<close>

fun isFinite :: "number \<Rightarrow> bool" where
  "isFinite (Fin x) = True"
| "isFinite a = False"

definition isNaN :: "number \<Rightarrow> bool" where
  "isNaN a = (a = NaN)"

text \<open>
  \<open>Math.floor\<close>, and \<open>Math.round\<close>, which rounds a half towards plus infinity. The
  integer nearest to a binary64 value is a binary64 value, so no rounding follows.
\<close>

fun Math_floor :: "number \<Rightarrow> number" where
  "Math_floor (Fin x) = Fin (of_int \<lfloor>x\<rfloor>)"
| "Math_floor a = a"

fun Math_round :: "number \<Rightarrow> number" where
  "Math_round (Fin x) = Fin (of_int \<lfloor>x + 1 / 2\<rfloor>)"
| "Math_round a = a"

text \<open>
  \<open>Math.pow(10, d)\<close> for a count \<open>d\<close> of decimal places, taken as correctly rounded.
  Up to \<open>d = 22\<close> the power of ten is a binary64 number and every engine returns it
  exactly. Above that the language leaves the result to the implementation, and an engine
  may return a neighbour of the correctly rounded value (V8 gives
  \<open>9.999999999999999e25\<close> at \<open>d = 26\<close>), so there the definition is an approximation of
  the engine. The properties below use \<open>d = 7\<close> only.
\<close>

definition pow10 :: "nat \<Rightarrow> number" where
  "pow10 d = to_number (10 ^ d)"

section \<open>Numeric strings\<close>

text \<open>The value of a string of decimal digits.\<close>

definition nat_of_digits :: "string \<Rightarrow> int" where
  "nat_of_digits ds = foldl (\<lambda>a c. 10 * a + digit_val c) 0 ds"

text \<open>The value of the digits \<open>ip\<close> before and \<open>fp\<close> after a decimal point.\<close>

definition dec_value :: "string \<Rightarrow> string \<Rightarrow> rat" where
  "dec_value ip fp = of_int (nat_of_digits ip) + of_int (nat_of_digits fp) / 10 ^ length fp"

text \<open>
  What a \<open>StrDecimalLiteral\<close> of ECMAScript denotes before rounding: an infinity
  (negative when the flag is set) or a rational.
\<close>

datatype literal = LitInfinity bool | LitValue rat

text \<open>
  The \<open>ExponentPart\<close> at the head of a string, if there is one: its value and the rest
  of the string. An \<open>e\<close> that no digit follows is not part of the literal.
\<close>

definition parse_exponent :: "string \<Rightarrow> int \<times> string" where
  "parse_exponent r =
     (case r of
        [] \<Rightarrow> (0, r)
      | c # cs \<Rightarrow>
          if c = CHR ''e'' \<or> c = CHR ''E'' then
            (let neg = (cs \<noteq> [] \<and> hd cs = CHR ''-'');
                 ds = (if cs \<noteq> [] \<and> (hd cs = CHR ''-'' \<or> hd cs = CHR ''+'') then tl cs else cs);
                 digits = takeWhile is_digit ds
             in if digits = [] then (0, r)
                else ((if neg then - nat_of_digits digits else nat_of_digits digits),
                      dropWhile is_digit ds))
          else (0, r))"

text \<open>
  The longest prefix that is a \<open>StrUnsignedDecimalLiteral\<close>: \<open>Infinity\<close>, or digits with
  an optional point and fraction (at least one digit in all) and an optional exponent.
\<close>

definition parse_unsigned :: "string \<Rightarrow> (literal \<times> string) option" where
  "parse_unsigned s =
     (if startsWith s ''Infinity'' then Some (LitInfinity False, drop 8 s)
      else
        let ip = takeWhile is_digit s;
            r1 = dropWhile is_digit s;
            point = (r1 \<noteq> [] \<and> hd r1 = CHR ''.'');
            fp = (if point then takeWhile is_digit (tl r1) else []);
            r2 = (if point then dropWhile is_digit (tl r1) else r1)
        in if ip = [] \<and> fp = [] then None
           else let (e, r3) = parse_exponent r2
                in Some (LitValue (dec_value ip fp * 10 powi e), r3))"

definition lit_neg :: "literal \<Rightarrow> literal" where
  "lit_neg l = (case l of LitInfinity b \<Rightarrow> LitInfinity (\<not> b) | LitValue v \<Rightarrow> LitValue (- v))"

text \<open>The longest prefix that is a \<open>StrDecimalLiteral\<close>: an optional sign first.\<close>

definition parse_signed :: "string \<Rightarrow> (literal \<times> string) option" where
  "parse_signed s =
     (case s of
        [] \<Rightarrow> None
      | c # cs \<Rightarrow>
          if c = CHR ''+'' then parse_unsigned cs
          else if c = CHR ''-'' then map_option (\<lambda>(l, r). (lit_neg l, r)) (parse_unsigned cs)
          else parse_unsigned s)"

definition lit_number :: "literal \<Rightarrow> number" where
  "lit_number l =
     (case l of LitInfinity b \<Rightarrow> (if b then NegInf else PosInf) | LitValue v \<Rightarrow> to_number v)"

text \<open>
  \<open>parseFloat\<close>: leading white space is skipped, the longest prefix that is a decimal
  literal is read and what follows it is ignored; with no such prefix the result is \<open>NaN\<close>.
\<close>

definition parseFloat :: "string \<Rightarrow> number" where
  "parseFloat s =
     (case parse_signed (dropWhile is_ws s) of
        None \<Rightarrow> NaN
      | Some (l, r) \<Rightarrow> lit_number l)"

text \<open>A digit of a base up to 16, and the value of a string of such digits.\<close>

definition radix_digit :: "char \<Rightarrow> int option" where
  "radix_digit c =
     (if is_digit c then Some (code c - 48)
      else if 97 \<le> code c \<and> code c \<le> 102 then Some (code c - 87)
      else if 65 \<le> code c \<and> code c \<le> 70 then Some (code c - 55)
      else None)"

definition parse_radix :: "int \<Rightarrow> string \<Rightarrow> int option" where
  "parse_radix b ds =
     (if ds \<noteq> [] \<and> list_all (\<lambda>c. case radix_digit c of None \<Rightarrow> False | Some d \<Rightarrow> d < b) ds
      then Some (foldl (\<lambda>a c. b * a + (case radix_digit c of None \<Rightarrow> 0 | Some d \<Rightarrow> d)) 0 ds)
      else None)"

text \<open>The \<open>NonDecimalIntegerLiteral\<close>s \<open>0x\<close>, \<open>0o\<close> and \<open>0b\<close>.\<close>

definition parse_non_decimal :: "string \<Rightarrow> int option" where
  "parse_non_decimal t =
     (if startsWith t ''0x'' \<or> startsWith t ''0X'' then parse_radix 16 (drop 2 t)
      else if startsWith t ''0o'' \<or> startsWith t ''0O'' then parse_radix 8 (drop 2 t)
      else if startsWith t ''0b'' \<or> startsWith t ''0B'' then parse_radix 2 (drop 2 t)
      else None)"

text \<open>
  \<open>Number(s)\<close> on a string: white space is trimmed at both ends, the empty string is 0,
  and the whole of what remains has to be one numeric literal.
\<close>

definition js_Number :: "string \<Rightarrow> number" where
  "js_Number s =
     (let t = trim s
      in if t = [] then Fin 0
         else case parse_non_decimal t of
                Some n \<Rightarrow> to_number (of_int n)
              | None \<Rightarrow>
                  (case parse_signed t of
                     None \<Rightarrow> NaN
                   | Some (l, r) \<Rightarrow> if r = [] then lit_number l else NaN))"

text \<open>
  \<open>Number.prototype.toFixed\<close> with \<open>f\<close> fraction digits. From \<open>10 ^ 21\<close> on the result
  is the exponent form of \<open>Number::toString\<close>, which is left as the parameter \<open>big\<close>.
\<close>

definition toFixed :: "(rat \<Rightarrow> string) \<Rightarrow> number \<Rightarrow> nat \<Rightarrow> string" where
  "toFixed big x f =
     (case x of
        NaN \<Rightarrow> ''NaN''
      | PosInf \<Rightarrow> ''Infinity''
      | NegInf \<Rightarrow> ''-Infinity''
      | Fin r \<Rightarrow>
          (if r < 0 then ''-'' else []) @
          (if 10 ^ 21 \<le> \<bar>r\<bar> then big \<bar>r\<bar>
           else
             let n = \<lfloor>\<bar>r\<bar> * 10 ^ f + 1 / 2\<rfloor>;
                 m = show_nat n
             in if f = 0 then m
                else let z = (if length m \<le> f then replicate (f + 1 - length m) CHR ''0'' @ m
                              else m);
                         k = length z
                     in take (k - f) z @ ''.'' @ drop (k - f) z))"

text \<open>\<open>replace(/0+$/, '')\<close> and \<open>replace(/\.$/, '')\<close>.\<close>

definition strip_trailing_zeros :: "string \<Rightarrow> string" where
  "strip_trailing_zeros s = rev (dropWhile (\<lambda>c. c = CHR ''0'') (rev s))"

definition strip_trailing_point :: "string \<Rightarrow> string" where
  "strip_trailing_point s = (if endsWith s ''.'' then butlast s else s)"

section \<open>Stellar address validation (utils/stellar-validation.ts)\<close>

text \<open>The character class \<open>[A-Z2-7]\<close>.\<close>

definition is_base32 :: "char \<Rightarrow> bool" where
  "is_base32 c = ((65 \<le> code c \<and> code c \<le> 90) \<or> (50 \<le> code c \<and> code c \<le> 55))"

text \<open>
  \<open>/^[GC][A-Z2-7]{55}$/.test(s)\<close>. The expression has no flags, so \<open>^\<close> and \<open>$\<close> match
  only at the two ends of the input.
\<close>

fun base32Regex :: "string \<Rightarrow> bool" where
  "base32Regex [] = False"
| "base32Regex (c # cs) =
     ((c = CHR ''G'' \<or> c = CHR ''C'') \<and> length cs = 55 \<and> list_all is_base32 cs)"

text \<open>
  \<open>isValidStellarAddress\<close>. The parameter is typed \<open>string\<close>; of the guard
  \<open>!address || typeof address !== 'string'\<close> the empty string is the case that remains.
\<close>

definition isValidStellarAddress :: "string \<Rightarrow> bool" where
  "isValidStellarAddress address =
     (if address = [] then False
      else if length address \<noteq> 56 then False
      else if \<not> startsWith address ''G'' \<and> \<not> startsWith address ''C'' then False
      else base32Regex address)"

text \<open>\<open>validateStellarAddress\<close>: \<open>None\<close> is \<open>null\<close>, \<open>Some msg\<close> the error message.\<close>

definition validateStellarAddress :: "string \<Rightarrow> string option" where
  "validateStellarAddress address =
     (if address = [] then Some ''Address is required''
      else if trim address \<noteq> address
        then Some ''Address cannot have leading or trailing whitespace''
      else if length address = 0 then Some ''Address cannot be empty''
      else if length address < 56
        then Some (''Address is too short ('' @ show_nat (int (length address))
                    @ '' characters, expected 56)'')
      else if length address > 56
        then Some (''Address is too long ('' @ show_nat (int (length address))
                    @ '' characters, expected 56)'')
      else if \<not> startsWith address ''G'' \<and> \<not> startsWith address ''C''
        then Some ''Address must start with G (public key) or C (contract address)''
      else if \<not> base32Regex address
        then Some ''Address contains invalid characters (must be A-Z, 2-7)''
      else None)"

section \<open>Amount validation and conversion (utils/amount-validation.ts)\<close>

definition MAX_DECIMAL_PLACES :: nat where
  "MAX_DECIMAL_PLACES = 7"

text \<open>\<open>/^[0-9]*\.?[0-9]*$/.test(s)\<close>: digits, at most one point, digits.\<close>

definition amountRegex :: "string \<Rightarrow> bool" where
  "amountRegex s =
     (case dropWhile is_digit s of
        [] \<Rightarrow> True
      | c # cs \<Rightarrow> c = CHR ''.'' \<and> list_all is_digit cs)"

text \<open>\<open>(s.match(/\./g) || []).length\<close>.\<close>

definition decimalCount :: "string \<Rightarrow> nat" where
  "decimalCount s = length (filter (\<lambda>c. c = CHR ''.'') s)"

text \<open>\<open>s.indexOf('.')\<close>, with \<open>None\<close> for \<open>-1\<close>.\<close>

definition indexOf_point :: "string \<Rightarrow> nat option" where
  "indexOf_point s =
     (if CHR ''.'' \<in> set s then Some (length (takeWhile (\<lambda>c. c \<noteq> CHR ''.'') s)) else None)"

text \<open>
  \<open>validateAmount\<close>: \<open>None\<close> is \<open>null\<close>. The parameter is typed \<open>string\<close>, so
  \<open>!amount\<close> is the test for the empty string.
\<close>

definition validateAmount :: "string \<Rightarrow> string option" where
  "validateAmount amount =
     (if amount = [] then Some ''Amount is required''
      else
        let trimmed = trim amount
        in if trimmed = [] then Some ''Amount cannot be empty''
           else if trimmed \<noteq> amount
             then Some ''Amount cannot have leading or trailing whitespace''
           else if \<not> amountRegex trimmed
             then Some ''Amount can only contain numbers and one decimal point''
           else if startsWith trimmed ''.'' \<or> endsWith trimmed ''.''
             then Some ''Amount cannot start or end with a decimal point''
           else if 1 < decimalCount trimmed
             then Some ''Amount cannot have multiple decimal points''
           else
             let num = js_Number trimmed
             in if isNaN num \<or> \<not> isFinite num then Some ''Amount must be a valid number''
                else if num_le num (Fin 0) then Some ''Amount must be greater than zero''
                else case indexOf_point trimmed of
                       None \<Rightarrow> None
                     | Some decimalIndex \<Rightarrow>
                         if MAX_DECIMAL_PLACES < length trimmed - decimalIndex - 1
                         then Some (''Amount cannot have more than ''
                                    @ show_nat (int MAX_DECIMAL_PLACES) @ '' decimal places'')
                         else None)"

definition isValidAmount :: "string \<Rightarrow> bool" where
  "isValidAmount amount = (validateAmount amount = None)"

text \<open>What a function can throw: an \<open>Error\<close> with its message, or a \<open>RangeError\<close>.\<close>

datatype error = Error string | RangeError

text \<open>\<open>BigInt(x)\<close> on a number: the integer itself, a \<open>RangeError\<close> on anything else.\<close>

definition BigInt :: "number \<Rightarrow> error + int" where
  "BigInt x =
     (case x of
        Fin r \<Rightarrow> if of_int \<lfloor>r\<rfloor> = r then Inr \<lfloor>r\<rfloor> else Inl RangeError
      | _ \<Rightarrow> Inl RangeError)"

text \<open>
  \<open>amountToStroops(amount, decimals)\<close>; the count \<open>decimals\<close> defaults to 7 in the
  source.
\<close>

definition amountToStroops :: "string \<Rightarrow> nat \<Rightarrow> error + int" where
  "amountToStroops amount decimals =
     (if \<not> isValidAmount amount then Inl (Error ''Invalid amount'')
      else
        let num = js_Number (trim amount);
            multiplier = pow10 decimals
        in BigInt (Math_round (num_mul num multiplier)))"

text \<open>
  Division and remainder of \<open>bigint\<close>: the quotient is truncated towards zero and the
  remainder has the sign of the dividend.
\<close>

definition bigint_div :: "int \<Rightarrow> int \<Rightarrow> int" where
  "bigint_div a b = sgn a * sgn b * (\<bar>a\<bar> div \<bar>b\<bar>)"

definition bigint_rem :: "int \<Rightarrow> int \<Rightarrow> int" where
  "bigint_rem a b = a - b * bigint_div a b"

text \<open>\<open>toString\<close> of a \<open>bigint\<close>, and \<open>padStart\<close>.\<close>

definition show_int :: "int \<Rightarrow> string" where
  "show_int i = (if i < 0 then ''-'' @ show_nat (- i) else show_nat i)"

definition padStart :: "string \<Rightarrow> nat \<Rightarrow> char \<Rightarrow> string" where
  "padStart s n c = replicate (n - length s) c @ s"

text \<open>
  \<open>stroopsToAmount(stroops, decimals)\<close>. The divisor \<open>BigInt(Math.pow(10, decimals))\<close>
  is at least 1 when it exists, and a \<open>RangeError\<close> when the power overflows.
\<close>

definition stroopsToAmount :: "int \<Rightarrow> nat \<Rightarrow> error + string" where
  "stroopsToAmount stroops decimals =
     (case BigInt (pow10 decimals) of
        Inl e \<Rightarrow> Inl e
      | Inr divisor \<Rightarrow>
          let wholePart = bigint_div stroops divisor;
              fractionalPart = bigint_rem stroops divisor
          in if fractionalPart = 0 then Inr (show_int wholePart)
             else
               let fractionalStr = padStart (show_int fractionalPart) decimals CHR ''0'';
                   trimmedFractional = strip_trailing_zeros fractionalStr
               in Inr (show_int wholePart @ ''.'' @ trimmedFractional))"

text \<open>
  \<open>calculateEqualAmount(totalAmount, recipientCount)\<close>. The count is an integer (the
  callers pass the length of a list); as a number it is its nearest binary64 value.
\<close>

definition calculateEqualAmount :: "(rat \<Rightarrow> string) \<Rightarrow> string \<Rightarrow> int \<Rightarrow> string" where
  "calculateEqualAmount big totalAmount recipientCount =
     (if \<not> isValidAmount totalAmount \<or> recipientCount \<le> 0 then ''0''
      else
        let total = js_Number (trim totalAmount);
            perRecipient = num_div total (to_number (of_int recipientCount))
        in strip_trailing_point
             (strip_trailing_zeros (toFixed big perRecipient MAX_DECIMAL_PLACES)))"

section \<open>Distribution transaction hook (useDistributionTransaction)\<close>

text \<open>The types \<open>DistributionType\<close>, \<open>Recipient\<close>, \<open>ValidationError\<close> and \<open>DistributionState\<close>.\<close>

datatype distribution_type = Equal | Weighted

record recipient =
  recipient_id :: string
  address :: string
  amount :: "string option"
  recipient_isValid :: bool
  validationError :: "string option"

record validation_error =
  error_field :: string
  error_message :: string
  recipientId :: "string option"

record distribution_state =
  distribution_type :: distribution_type
  recipients :: "recipient list"
  totalAmount :: string
  state_isValid :: bool
  errors :: "validation_error list"

text \<open>\<open>TransactionResult\<close>, and the two state variables of the hook.\<close>

record transaction_result =
  success :: bool
  transactionHash :: "string option"
  result_error :: "string option"

record hook_state =
  isLoading :: bool
  hook_error :: "string option"

text \<open>
  The Stellar service is not part of the hook: its two distribution methods are
  parameters. A call resolves to a transaction hash or throws, either an \<open>Error\<close> with
  its message or some other value. The hook passes every amount as the decimal string of
  a number; the model passes the number.
\<close>

datatype thrown = ErrorObject string | OtherValue

record stellar_service =
  distributeEqual :: "string \<Rightarrow> string \<Rightarrow> number \<Rightarrow> string list \<Rightarrow> thrown + string"
  distributeWeighted :: "string \<Rightarrow> string \<Rightarrow> string list \<Rightarrow> number list \<Rightarrow> thrown + string"

text \<open>The calls made to the service, in order.\<close>

datatype service_call =
  DistributeEqual string string number "string list"
| DistributeWeighted string string "string list" "number list"

text \<open>
  \<open>!r.amount\<close> holds for a missing amount and for the empty string; where the hook
  hands \<open>r.amount\<close> to \<open>parseFloat\<close>, a missing amount reads as the string
  \<open>undefined\<close>.
\<close>

definition amount_missing :: "recipient \<Rightarrow> bool" where
  "amount_missing r = (case amount r of None \<Rightarrow> True | Some a \<Rightarrow> a = [])"

definition amount_string :: "recipient \<Rightarrow> string" where
  "amount_string r = (case amount r of None \<Rightarrow> ''undefined'' | Some a \<Rightarrow> a)"

text \<open>
  The body of the \<open>try\<close> block of \<open>executeTransaction\<close>: what it returns or throws,
  and the service calls it has made.
\<close>

definition try_block ::
  "stellar_service \<Rightarrow> string \<Rightarrow> string \<Rightarrow> distribution_state
     \<Rightarrow> (thrown + string) \<times> service_call list" where
  "try_block stellarService senderAddress tokenAddress state =
     (if length (recipients state) = 0 then (Inl (ErrorObject ''No recipients provided''), [])
      else if distribution_type state = Equal \<and> totalAmount state = []
        then (Inl (ErrorObject ''Total amount is required for equal distribution''), [])
      else if distribution_type state = Weighted \<and>
              list_ex (\<lambda>r. amount_missing r \<or> num_le (parseFloat (amount_string r)) (Fin 0))
                (recipients state)
        then (Inl (ErrorObject
                ''All recipients must have valid amounts for weighted distribution''), [])
      else
        let rs = map address (recipients state)
        in if distribution_type state = Equal then
             let totalAmountStroops =
                   Math_floor (num_mul (parseFloat (totalAmount state)) (Fin 10000000))
             in (distributeEqual stellarService senderAddress tokenAddress totalAmountStroops rs,
                 [DistributeEqual senderAddress tokenAddress totalAmountStroops rs])
           else
             let amounts =
                   map (\<lambda>r. Math_floor (num_mul (parseFloat (amount_string r)) (Fin 10000000)))
                     (recipients state)
             in (distributeWeighted stellarService senderAddress tokenAddress rs amounts,
                 [DistributeWeighted senderAddress tokenAddress rs amounts]))"

text \<open>
  \<open>executeTransaction\<close>: the result, the hook state it leaves and the service calls
  made.
\<close>

definition executeTransaction ::
  "stellar_service \<Rightarrow> string \<Rightarrow> string \<Rightarrow> distribution_state
     \<Rightarrow> transaction_result \<times> hook_state \<times> service_call list" where
  "executeTransaction stellarService senderAddress tokenAddress state =
     (case try_block stellarService senderAddress tokenAddress state of
        (Inr hash, calls) \<Rightarrow>
          (\<lparr>success = True, transactionHash = Some hash, result_error = None\<rparr>,
           \<lparr>isLoading = False, hook_error = None\<rparr>, calls)
      | (Inl err, calls) \<Rightarrow>
          let errorMessage = (case err of ErrorObject m \<Rightarrow> m | OtherValue \<Rightarrow> ''Transaction failed'')
          in (\<lparr>success = False, transactionHash = None, result_error = Some errorMessage\<rparr>,
              \<lparr>isLoading = False, hook_error = Some errorMessage\<rparr>, calls))"

section \<open>Stream progress (StreamProgressBar.tsx)\<close>

text \<open>\<open>toLowerCase\<close> on the code units below 256.\<close>

definition lower_char :: "char \<Rightarrow> char" where
  "lower_char c =
     (if (65 \<le> code c \<and> code c \<le> 90) \<or> (192 \<le> code c \<and> code c \<le> 222 \<and> code c \<noteq> 215)
      then char_of (code c + 32) else c)"

definition toLowerCase :: "string \<Rightarrow> string" where
  "toLowerCase s = map lower_char s"

text \<open>
  The clock of the component. \<open>currentTime\<close> starts as \<open>Date.now()\<close> when the
  component is mounted; the effect installs the one-second timer only for a status that
  reads \<open>active\<close>, and each tick of the timer stores the wall-clock time.
\<close>

definition tick :: "string \<Rightarrow> number \<Rightarrow> number \<Rightarrow> number" where
  "tick status wallClock currentTime =
     (if toLowerCase status \<noteq> ''active'' then currentTime else wallClock)"

text \<open>
  One mounted component. \<open>useState(Date.now())\<close> sets \<open>currentTime\<close> to the wall-clock
  time of the mount; afterwards, second by second, the timer of the effect stores the
  wall-clock time if the status of that render reads \<open>active\<close>, and nothing happens
  otherwise. \<open>currentTime_after mountClock callbacks\<close> is \<open>currentTime\<close> after the seconds
  \<open>callbacks\<close>, each given as the status and the wall-clock time then, in order.
\<close>

definition currentTime_after :: "number \<Rightarrow> (string \<times> number) list \<Rightarrow> number" where
  "currentTime_after mountClock callbacks =
     fold (\<lambda>(status, wallClock) currentTime. tick status wallClock currentTime)
       callbacks mountClock"

record progress_stats =
  withdrawnPercent :: number
  vestedPercent :: number
  remainingPercent :: number
  withdrawnSize :: number
  vestedSize :: number
  vestedNotWithdrawnSize :: number
  remainingSize :: number
  total :: number

text \<open>The local \<open>vestedSize\<close> of \<open>stats\<close>, before it is clamped.\<close>

definition vested_raw :: "number \<Rightarrow> number \<Rightarrow> number \<Rightarrow> number \<Rightarrow> number" where
  "vested_raw tot now start duration =
     (if num_lt start now then
        let elapsed = Math_min (num_sub now start) duration
        in num_div (num_mul tot elapsed) duration
      else Fin 0)"

text \<open>The validity test of \<open>stats\<close>.\<close>

definition stats_valid :: "number \<Rightarrow> number \<Rightarrow> number \<Rightarrow> number \<Rightarrow> bool" where
  "stats_valid tot wd start endTime =
     (isFinite tot \<and> num_lt (Fin 0) tot \<and> isFinite wd \<and> isFinite start \<and> isFinite endTime \<and>
      isFinite (num_sub endTime start) \<and> num_lt (Fin 0) (num_sub endTime start))"

text \<open>The memoised \<open>stats\<close> of the component, a function of the clock and the properties.\<close>

definition stats :: "number \<Rightarrow> number \<Rightarrow> number \<Rightarrow> string \<Rightarrow> string \<Rightarrow> progress_stats" where
  "stats currentTime startTime endTime totalAmountStr withdrawnAmountStr =
     (let tot = parseFloat totalAmountStr;
          wd = parseFloat withdrawnAmountStr;
          now = currentTime;
          start = startTime;
          duration = num_sub endTime start
      in if \<not> stats_valid tot wd start endTime then
           \<lparr>withdrawnPercent = Fin 0, vestedPercent = Fin 0, remainingPercent = Fin 0,
            withdrawnSize = Fin 0, vestedSize = Fin 0, vestedNotWithdrawnSize = Fin 0,
            remainingSize = Fin 0, total = Fin 0\<rparr>
         else
           let vested = vested_raw tot now start duration;
               currentVested = Math_min tot (Math_max wd vested);
               withdrawnSizeClamped = Math_min tot (Math_max (Fin 0) wd);
               wPercent =
                 Math_min (Fin 100)
                   (Math_max (Fin 0) (num_mul (num_div withdrawnSizeClamped tot) (Fin 100)));
               vestedNotWithdrawn = Math_max (Fin 0) (num_sub currentVested withdrawnSizeClamped);
               vPercent =
                 Math_min (num_sub (Fin 100) wPercent)
                   (Math_max (Fin 0) (num_mul (num_div vestedNotWithdrawn tot) (Fin 100)));
               rPercent = Math_max (Fin 0) (num_sub (num_sub (Fin 100) wPercent) vPercent)
           in \<lparr>withdrawnPercent = wPercent, vestedPercent = vPercent,
               remainingPercent = rPercent, withdrawnSize = withdrawnSizeClamped,
               vestedSize = currentVested, vestedNotWithdrawnSize = vestedNotWithdrawn,
               remainingSize = Math_max (Fin 0) (num_sub tot currentVested), total = tot\<rparr>)"

text \<open>
  The vesting formula in the words of the specification, over integers: the reference
  time is \<open>paused_at\<close> for a paused stream and \<open>now\<close> otherwise; the elapsed time is
  clamped to the duration, less the total paused duration, floored at 0; the vested
  amount is the floored proportion of the total.
\<close>

datatype stream_status = Active | Paused | Canceled | Completed

definition spec_vested ::
  "stream_status \<Rightarrow> int option \<Rightarrow> int \<Rightarrow> int \<Rightarrow> int \<Rightarrow> int \<Rightarrow> int \<Rightarrow> int" where
  "spec_vested status paused_at now start_time end_time total_paused_duration total_amount =
     (let reference_time =
            (if status = Paused then (case paused_at of Some p \<Rightarrow> p | None \<Rightarrow> now) else now);
          duration = end_time - start_time;
          elapsed = max 0 (min (max (reference_time - start_time) 0) duration - total_paused_duration)
      in total_amount * elapsed div duration)"

section \<open>Notions of the specification\<close>

text \<open>
  A well-formed amount in the words of the specification is a plain decimal: digits, or
  digits, a point and digits. Its numeric value is what \<open>Number\<close> reads.
\<close>

definition plain_decimal :: "string \<Rightarrow> bool" where
  "plain_decimal s =
     (let ip = takeWhile is_digit s; r = dropWhile is_digit s
      in ip \<noteq> [] \<and> (r = [] \<or> (hd r = CHR ''.'' \<and> tl r \<noteq> [] \<and> list_all is_digit (tl r))))"

text \<open>The number that a plain decimal denotes, exactly.\<close>

definition amount_value :: "string \<Rightarrow> rat" where
  "amount_value s = dec_value (takeWhile is_digit s) (drop 1 (dropWhile is_digit s))"

text \<open>
  The progress figures partition the total up to rounding: the total is finite, each of
  the three sizes lies between 0 and the total and each of the three percentages between
  0 and 100, the sizes add up to the total within \<open>2 powi (- 52)\<close> of it (of the
  least normal number for a smaller total), and the percentages add up to 100 within
  \<open>25 * 2 powi (- 50)\<close>.
\<close>

definition partition_rounded :: "progress_stats \<Rightarrow> bool" where
  "partition_rounded st =
     (isFinite (total st) \<and>
      num_le (Fin 0) (withdrawnSize st) \<and> num_le (withdrawnSize st) (total st) \<and>
      num_le (Fin 0) (vestedNotWithdrawnSize st) \<and>
      num_le (vestedNotWithdrawnSize st) (total st) \<and>
      num_le (Fin 0) (remainingSize st) \<and> num_le (remainingSize st) (total st) \<and>
      num_le (Fin 0) (withdrawnPercent st) \<and> num_le (withdrawnPercent st) (Fin 100) \<and>
      num_le (Fin 0) (vestedPercent st) \<and> num_le (vestedPercent st) (Fin 100) \<and>
      num_le (Fin 0) (remainingPercent st) \<and> num_le (remainingPercent st) (Fin 100) \<and>
      \<bar>the_fin (withdrawnSize st) + the_fin (vestedNotWithdrawnSize st)
         + the_fin (remainingSize st) - the_fin (total st)\<bar>
        \<le> max (the_fin (total st)) (2 powi (- 1022)) * 2 powi (- 52) \<and>
      \<bar>the_fin (withdrawnPercent st) + the_fin (vestedPercent st)
         + the_fin (remainingPercent st) - 100\<bar>
        \<le> 25 * 2 powi (- 50))"

section \<open>Payment-stream error table (generated/payment-stream/src/index.ts)\<close>

text \<open>The exported constant \<open>Errors\<close>: error number and message, in the order written.\<close>

definition Errors :: "(nat \<times> string) list" where
  "Errors =
     [(1, ''AlreadyInitialized''), (2, ''NotInitialized''), (3, ''Unauthorized''),
      (4, ''InvalidAmount''), (5, ''InvalidTimeRange''), (6, ''StreamNotFound''),
      (7, ''StreamNotActive''), (8, ''StreamNotPaused''), (9, ''StreamCannotBeCanceled''),
      (10, ''InsufficientWithdrawable''), (11, ''TransferFailed''), (12, ''FeeTooHigh''),
      (13, ''InvalidRecipient''), (14, ''DepositExceedsTotal''),
      (15, ''ArithmeticOverflow''), (16, ''InvalidDelegate'')]"

section \<open>The payment-stream ledger (the contract behind generated/payment-stream)\<close>

text \<open>
  The sources hold the generated bindings of the payment-stream contract (the table
  \<open>Errors\<close>, the data types, and the methods of \<open>Client\<close> with their parameters), not
  the contract. Its operations are therefore written from sections 3, 4.1 to 4.3, 5, 6
  and 7 of the specification. A failing operation yields the name of its error kind and
  nothing else (all-or-nothing, section 7). Where the paragraph of an operation names no
  kind for one of its conditions, the kind is the one whose condition in the taxonomy of
  section 7 covers it; the checks are made in the order of the paragraph. The caller, the
  ledger time and the token moves are explicit parameters (section 9). Amounts are
  signed 128-bit integers, times, identifiers and the counters of the protocol unsigned
  64-bit ones, the counters of a stream and the fee rate unsigned 32-bit ones, all as
  integers with the range written out. Events are left out: emitting one cannot fail.
\<close>

type_synonym 'a outcome = "string + 'a"

text \<open>
  Modelled from the spec: the contract's way of failing (section 7). A requirement that
  does not hold aborts the operation with its error kind.
\<close>

definition require :: "bool \<Rightarrow> string \<Rightarrow> 'a outcome \<Rightarrow> 'a outcome" where
  "require condition kind rest = (if condition then rest else Inl kind)"

text \<open>
  Modelled from the spec: the contract's propagation of errors (section 7). A step that
  fails aborts the operation with the kind of the step.
\<close>

definition and_then :: "'a outcome \<Rightarrow> ('a \<Rightarrow> 'b outcome) \<Rightarrow> 'b outcome" where
  "and_then r f = (case r of Inl kind \<Rightarrow> Inl kind | Inr x \<Rightarrow> f x)"

text \<open>Modelled from the spec: the range of the contract's amount type \<open>i128\<close> (section 3).\<close>

definition fits_i128 :: "int \<Rightarrow> bool" where
  "fits_i128 x = (- (2 ^ 127) \<le> x \<and> x < 2 ^ 127)"

text \<open>
  Modelled from the spec: the contract's \<open>checked_add\<close> (section 4.1), which fails with
  \<open>ArithmeticOverflow\<close> on overflow.
\<close>

definition checked_add :: "int \<Rightarrow> int \<Rightarrow> int outcome" where
  "checked_add a b = (if fits_i128 (a + b) then Inr (a + b) else Inl ''ArithmeticOverflow'')"

text \<open>
  Modelled from the spec: the contract's \<open>checked_sub\<close> (section 4.1), which fails with
  \<open>ArithmeticOverflow\<close> on underflow.
\<close>

definition checked_sub :: "int \<Rightarrow> int \<Rightarrow> int outcome" where
  "checked_sub a b = (if fits_i128 (a - b) then Inr (a - b) else Inl ''ArithmeticOverflow'')"

text \<open>
  Modelled from the spec: the contract's \<open>proportion\<close> (section 4.1):
  \<open>amount * numerator / denominator\<close> with an exact product, rounded down. It fails with
  \<open>ArithmeticOverflow\<close> on a negative input, on a result outside the 128-bit range
  (section 9) and, as any checked arithmetic failure, on a zero denominator.
\<close>

definition proportion :: "int \<Rightarrow> int \<Rightarrow> int \<Rightarrow> int outcome" where
  "proportion amount' numerator denominator =
     (if amount' < 0 \<or> numerator < 0 \<or> denominator \<le> 0 then Inl ''ArithmeticOverflow''
      else if fits_i128 (amount' * numerator div denominator)
        then Inr (amount' * numerator div denominator)
      else Inl ''ArithmeticOverflow'')"

text \<open>
  Modelled from the spec: the contract's counter arithmetic (section 4.5). Changing an
  unsigned counter of the given width fails with \<open>ArithmeticOverflow\<close> outside its range.
\<close>

definition counter_add :: "nat \<Rightarrow> int \<Rightarrow> int \<Rightarrow> int outcome" where
  "counter_add bits c d =
     (if 0 \<le> c + d \<and> c + d < 2 ^ bits then Inr (c + d) else Inl ''ArithmeticOverflow'')"

text \<open>
  Modelled from the spec: the contract's record \<open>Stream\<close> (section 3), with the fields of
  the generated interface of that name.
\<close>

record stream =
  stream_id :: int
  stream_sender :: string
  stream_recipient :: string
  stream_token :: string
  total_amount :: int
  balance :: int
  withdrawn_amount :: int
  start_time :: int
  end_time :: int
  stream_status :: stream_status
  paused_at :: "int option"
  total_paused_duration :: int

text \<open>
  Modelled from the spec: the contract's record \<open>StreamMetrics\<close> (section 3), with the
  fields of the generated interface of that name.
\<close>

record stream_metrics =
  pause_count :: int
  withdrawal_count :: int
  total_withdrawn :: int
  stream_total_delegations :: int
  last_activity :: int
  last_delegation_time :: int
  current_delegate :: "string option"

text \<open>
  Modelled from the spec: the contract's record \<open>ProtocolMetrics\<close> (section 3), with the
  fields of the generated interface of that name.
\<close>

record protocol_metrics =
  total_streams_created :: int
  total_active_streams :: int
  total_delegations :: int
  total_tokens_streamed :: int

text \<open>
  Modelled from the spec: the contract's state store (section 9): the administrator,
  absent before \<open>initialize\<close>, the fee collector and the fee rate, the streams with
  their metrics by identifier, the next identifier, and the protocol metrics.
\<close>

record ledger =
  admin :: "string option"
  fee_collector :: string
  protocol_fee_rate :: int
  streams :: "int \<Rightarrow> (stream \<times> stream_metrics) option"
  next_stream_id :: int
  metrics :: protocol_metrics

text \<open>
  Modelled from the spec: the contract's host environment (sections 2 and 9): the ledger
  time \<open>now\<close>, the address that holds the funds of the streams, the token move, which
  succeeds or fails, and the bound on the fee rate, which the specification leaves open.
\<close>

record host =
  ledger_time :: int
  contract_address :: string
  token_transfer :: "string \<Rightarrow> string \<Rightarrow> string \<Rightarrow> int \<Rightarrow> bool"
  max_fee_rate :: int

text \<open>
  Modelled from the spec: the contract's check that it is initialised; use before
  \<open>initialize\<close> is \<open>NotInitialized\<close> (section 7).
\<close>

definition initialized :: "ledger \<Rightarrow> 'a outcome \<Rightarrow> 'a outcome" where
  "initialized l rest = require (admin l \<noteq> None) ''NotInitialized'' rest"

text \<open>
  Modelled from the spec: the contract's lookup of a stream; an unknown identifier is
  \<open>StreamNotFound\<close> (section 7).
\<close>

definition find_stream :: "ledger \<Rightarrow> int \<Rightarrow> (stream \<times> stream_metrics) outcome" where
  "find_stream l sid =
     (case streams l sid of None \<Rightarrow> Inl ''StreamNotFound'' | Some sm \<Rightarrow> Inr sm)"

text \<open>
  Modelled from the spec: the contract's token move; a failed one is \<open>TransferFailed\<close>
  (section 7).
\<close>

definition transfer ::
  "host \<Rightarrow> string \<Rightarrow> string \<Rightarrow> string \<Rightarrow> int \<Rightarrow> 'a outcome \<Rightarrow> 'a outcome" where
  "transfer h token sender receiver amount' rest =
     require (token_transfer h token sender receiver amount') ''TransferFailed'' rest"

text \<open>
  Modelled from the spec: the contract's terminal states, \<open>Canceled\<close> and \<open>Completed\<close>
  (section 4.2).
\<close>

definition is_terminal :: "stream \<Rightarrow> bool" where
  "is_terminal s = (stream_status s = Canceled \<or> stream_status s = Completed)"

text \<open>
  Modelled from the spec: the contract's vested amount, by the vesting formula of
  section 4.2. The reference time is \<open>paused_at\<close> for a paused stream and \<open>now\<close>
  otherwise; the elapsed time is clamped to the duration, less the total paused
  duration, floored at 0; the vested amount is the proportion of the total.
\<close>

definition vested :: "int \<Rightarrow> stream \<Rightarrow> int outcome" where
  "vested now s =
     (let reference_time =
            (if stream_status s = Paused
             then (case paused_at s of Some p \<Rightarrow> p | None \<Rightarrow> now) else now);
          duration = end_time s - start_time s;
          elapsed =
            max 0 (min (max (reference_time - start_time s) 0) duration
                     - total_paused_duration s)
      in proportion (total_amount s) elapsed duration)"

text \<open>
  Modelled from the spec: the contract's withdrawable amount (section 4.2):
  \<open>min(vested, balance) - withdrawn_amount\<close>, clamped between 0 and
  \<open>balance - withdrawn_amount\<close>.
\<close>

definition withdrawable :: "int \<Rightarrow> stream \<Rightarrow> int outcome" where
  "withdrawable now s =
     and_then (vested now s) (\<lambda>v.
       Inr (min (max (min v (balance s) - withdrawn_amount s) 0)
              (balance s - withdrawn_amount s)))"

text \<open>
  Modelled from the spec: the contract's \<open>initialize\<close>, callable exactly once,
  \<open>AlreadyInitialized\<close> thereafter (sections 4.4 and 7); a fee rate out of bounds is
  \<open>FeeTooHigh\<close>.
\<close>

definition initialize :: "host \<Rightarrow> string \<Rightarrow> string \<Rightarrow> int \<Rightarrow> ledger \<Rightarrow> ledger outcome" where
  "initialize h new_admin new_fee_collector general_fee_rate l =
     require (admin l = None) ''AlreadyInitialized''
    (require (0 \<le> general_fee_rate \<and> general_fee_rate \<le> max_fee_rate h) ''FeeTooHigh''
    (Inr (l\<lparr>admin := Some new_admin, fee_collector := new_fee_collector,
            protocol_fee_rate := general_fee_rate\<rparr>)))"

text \<open>
  Modelled from the spec: the contract's \<open>set_protocol_fee_rate\<close> (section 6), a
  privileged operation of the administrator: \<open>Unauthorized\<close> for any other caller,
  \<open>FeeTooHigh\<close> for a rate out of bounds.
\<close>

definition set_protocol_fee_rate :: "host \<Rightarrow> string \<Rightarrow> int \<Rightarrow> ledger \<Rightarrow> ledger outcome" where
  "set_protocol_fee_rate h caller new_fee_rate l =
     initialized l
    (require (admin l = Some caller) ''Unauthorized''
    (require (0 \<le> new_fee_rate \<and> new_fee_rate \<le> max_fee_rate h) ''FeeTooHigh''
    (Inr (l\<lparr>protocol_fee_rate := new_fee_rate\<rparr>))))"

text \<open>
  Modelled from the spec: the contract's \<open>set_fee_collector\<close>, which the specification
  does not describe; as a privileged operation it is \<open>Unauthorized\<close> for a caller other
  than the administrator (section 7).
\<close>

definition set_fee_collector :: "string \<Rightarrow> string \<Rightarrow> ledger \<Rightarrow> ledger outcome" where
  "set_fee_collector caller new_fee_collector l =
     initialized l
    (require (admin l = Some caller) ''Unauthorized''
    (Inr (l\<lparr>fee_collector := new_fee_collector\<rparr>)))"

text \<open>
  Modelled from the spec: the contract's \<open>create_stream\<close> (section 4.2), called by the
  sender. It requires \<open>total_amount > 0\<close> and \<open>initial_amount \<ge> 0\<close> (\<open>InvalidAmount\<close>),
  \<open>initial_amount \<le> total_amount\<close> (the balance would exceed the total:
  \<open>DepositExceedsTotal\<close>), \<open>end_time > start_time\<close> (\<open>InvalidTimeRange\<close>) and
  \<open>recipient \<noteq> sender\<close> (\<open>InvalidRecipient\<close>); the contract then holds the initial
  amount. It assigns the next identifier, sets the balance to the initial amount and the
  status to \<open>Active\<close>, zero-initialises the metrics of the stream and increments
  \<open>total_streams_created\<close> and \<open>total_active_streams\<close>.
\<close>

definition create_stream ::
  "host \<Rightarrow> string \<Rightarrow> string \<Rightarrow> string \<Rightarrow> string \<Rightarrow> int \<Rightarrow> int \<Rightarrow> int \<Rightarrow> int \<Rightarrow> ledger
     \<Rightarrow> (int \<times> ledger) outcome" where
  "create_stream h caller sender recipient token total_amount' initial_amount start_time'
       end_time' l =
     initialized l
    (require (caller = sender) ''Unauthorized''
    (require (0 < total_amount' \<and> 0 \<le> initial_amount) ''InvalidAmount''
    (require (initial_amount \<le> total_amount') ''DepositExceedsTotal''
    (require (start_time' < end_time') ''InvalidTimeRange''
    (require (recipient \<noteq> sender) ''InvalidRecipient''
    (transfer h token sender (contract_address h) initial_amount
    (and_then (counter_add 64 (next_stream_id l) 1) (\<lambda>next_id.
     and_then (counter_add 64 (total_streams_created (metrics l)) 1) (\<lambda>created.
     and_then (counter_add 64 (total_active_streams (metrics l)) 1) (\<lambda>active.
       Inr (next_stream_id l,
            l\<lparr>streams := (streams l)(next_stream_id l \<mapsto>
                  (\<lparr>stream_id = next_stream_id l, stream_sender = sender,
                    stream_recipient = recipient, stream_token = token,
                    total_amount = total_amount', balance = initial_amount,
                    withdrawn_amount = 0, start_time = start_time', end_time = end_time',
                    stream_status = Active, paused_at = None,
                    total_paused_duration = 0\<rparr>,
                   \<lparr>pause_count = 0, withdrawal_count = 0, total_withdrawn = 0,
                    stream_total_delegations = 0, last_activity = 0,
                    last_delegation_time = 0, current_delegate = None\<rparr>)),
              next_stream_id := next_id,
              metrics := (metrics l)\<lparr>total_streams_created := created,
                                      total_active_streams := active\<rparr>\<rparr>)))))))))))"

text \<open>
  Modelled from the spec: the contract's \<open>deposit\<close> (section 4.2), by any caller. It
  requires \<open>amount > 0\<close> (\<open>InvalidAmount\<close>), a stream that exists and is not terminal
  (\<open>StreamNotActive\<close>) and \<open>balance + amount \<le> total_amount\<close>
  (\<open>DepositExceedsTotal\<close>); it updates \<open>balance\<close> and \<open>last_activity\<close>.
\<close>

definition deposit :: "host \<Rightarrow> string \<Rightarrow> int \<Rightarrow> int \<Rightarrow> ledger \<Rightarrow> ledger outcome" where
  "deposit h caller sid amount' l =
     initialized l
    (require (0 < amount') ''InvalidAmount''
    (and_then (find_stream l sid) (\<lambda>(s, m).
     require (\<not> is_terminal s) ''StreamNotActive''
    (and_then (checked_add (balance s) amount') (\<lambda>new_balance.
     require (new_balance \<le> total_amount s) ''DepositExceedsTotal''
    (transfer h (stream_token s) caller (contract_address h) amount'
    (Inr (l\<lparr>streams := (streams l)(sid \<mapsto>
              (s\<lparr>balance := new_balance\<rparr>, m\<lparr>last_activity := ledger_time h\<rparr>))\<rparr>))))))))"

text \<open>
  Modelled from the spec: the contract's \<open>withdraw\<close> (section 4.2). The caller must be
  the recipient or the current delegate (\<open>Unauthorized\<close>), the stream \<open>Active\<close> or
  \<open>Paused\<close> (\<open>StreamNotActive\<close>), the amount positive (\<open>InvalidAmount\<close>) and at most
  the withdrawable amount (\<open>InsufficientWithdrawable\<close>). The fee
  \<open>proportion(amount, fee_rate, 10000)\<close> goes to the fee collector and the rest to the
  caller; \<open>withdrawn_amount\<close>, \<open>withdrawal_count\<close>, \<open>total_withdrawn\<close> and
  \<open>total_tokens_streamed\<close> grow; a stream whose \<open>withdrawn_amount\<close> reaches the total at
  or after \<open>end_time\<close> becomes \<open>Completed\<close> and \<open>total_active_streams\<close> drops by one.
\<close>

definition withdraw :: "host \<Rightarrow> string \<Rightarrow> int \<Rightarrow> int \<Rightarrow> ledger \<Rightarrow> ledger outcome" where
  "withdraw h caller sid amount' l =
     initialized l
    (and_then (find_stream l sid) (\<lambda>(s, m).
     require (caller = stream_recipient s \<or> current_delegate m = Some caller) ''Unauthorized''
    (require (stream_status s = Active \<or> stream_status s = Paused) ''StreamNotActive''
    (require (0 < amount') ''InvalidAmount''
    (and_then (withdrawable (ledger_time h) s) (\<lambda>available.
     require (amount' \<le> available) ''InsufficientWithdrawable''
    (and_then (proportion amount' (protocol_fee_rate l) 10000) (\<lambda>fee.
     and_then (checked_sub amount' fee) (\<lambda>net.
     transfer h (stream_token s) (contract_address h) (fee_collector l) fee
    (transfer h (stream_token s) (contract_address h) caller net
    (and_then (checked_add (withdrawn_amount s) amount') (\<lambda>withdrawn.
     and_then (counter_add 32 (withdrawal_count m) 1) (\<lambda>count.
     and_then (checked_add (total_withdrawn m) amount') (\<lambda>total_out.
     and_then (checked_add (total_tokens_streamed (metrics l)) amount') (\<lambda>streamed.
     and_then (if withdrawn = total_amount s \<and> end_time s \<le> ledger_time h
               then counter_add 64 (total_active_streams (metrics l)) (- 1)
               else Inr (total_active_streams (metrics l))) (\<lambda>active.
       Inr (l\<lparr>streams := (streams l)(sid \<mapsto>
              (s\<lparr>withdrawn_amount := withdrawn,
                 stream_status :=
                   (if withdrawn = total_amount s \<and> end_time s \<le> ledger_time h
                    then Completed else stream_status s)\<rparr>,
               m\<lparr>withdrawal_count := count, total_withdrawn := total_out\<rparr>)),
              metrics := (metrics l)\<lparr>total_tokens_streamed := streamed,
                                      total_active_streams := active\<rparr>\<rparr>)))))))))))))))))"

text \<open>
  Modelled from the spec: the contract's \<open>withdraw_max\<close> (section 4.2), which withdraws
  the withdrawable amount.
\<close>

definition withdraw_max :: "host \<Rightarrow> string \<Rightarrow> int \<Rightarrow> ledger \<Rightarrow> ledger outcome" where
  "withdraw_max h caller sid l =
     initialized l
    (and_then (find_stream l sid) (\<lambda>(s, m).
     and_then (withdrawable (ledger_time h) s) (\<lambda>available.
       withdraw h caller sid available l)))"

text \<open>
  Modelled from the spec: the contract's \<open>pause_stream\<close> (section 4.2), by the sender
  (\<open>Unauthorized\<close>), on an \<open>Active\<close> stream (\<open>StreamNotActive\<close>). It sets \<open>paused_at\<close>
  to now and the status to \<open>Paused\<close> and increments \<open>pause_count\<close>.
\<close>

definition pause_stream :: "host \<Rightarrow> string \<Rightarrow> int \<Rightarrow> ledger \<Rightarrow> ledger outcome" where
  "pause_stream h caller sid l =
     initialized l
    (and_then (find_stream l sid) (\<lambda>(s, m).
     require (caller = stream_sender s) ''Unauthorized''
    (require (stream_status s = Active) ''StreamNotActive''
    (and_then (counter_add 32 (pause_count m) 1) (\<lambda>pauses.
       Inr (l\<lparr>streams := (streams l)(sid \<mapsto>
              (s\<lparr>paused_at := Some (ledger_time h), stream_status := Paused\<rparr>,
               m\<lparr>pause_count := pauses\<rparr>))\<rparr>))))))"

text \<open>
  Modelled from the spec: the contract's \<open>resume_stream\<close> (section 4.2), by the sender
  (\<open>Unauthorized\<close>), on a \<open>Paused\<close> stream (\<open>StreamNotPaused\<close>). It adds
  \<open>now - paused_at\<close> to \<open>total_paused_duration\<close>, clears \<open>paused_at\<close> and sets the
  status to \<open>Active\<close>.
\<close>

definition resume_stream :: "host \<Rightarrow> string \<Rightarrow> int \<Rightarrow> ledger \<Rightarrow> ledger outcome" where
  "resume_stream h caller sid l =
     initialized l
    (and_then (find_stream l sid) (\<lambda>(s, m).
     require (caller = stream_sender s) ''Unauthorized''
    (require (stream_status s = Paused) ''StreamNotPaused''
    (and_then (counter_add 64 (total_paused_duration s)
                 (ledger_time h - (case paused_at s of Some p \<Rightarrow> p | None \<Rightarrow> ledger_time h)))
       (\<lambda>paused_total.
       Inr (l\<lparr>streams := (streams l)(sid \<mapsto>
              (s\<lparr>paused_at := None, stream_status := Active,
                 total_paused_duration := paused_total\<rparr>, m))\<rparr>))))))"

text \<open>
  Modelled from the spec: the contract's \<open>cancel_stream\<close> (section 4.2), by the sender
  (\<open>Unauthorized\<close>), on an \<open>Active\<close> or \<open>Paused\<close> stream (\<open>StreamCannotBeCanceled\<close>).
  The vested amount not yet withdrawn goes to the recipient and the balance less that
  amount back to the sender; the stream becomes \<open>Canceled\<close>, which by the invariant of
  section 3 leaves no \<open>paused_at\<close>, and \<open>total_active_streams\<close> drops by one.
\<close>

definition cancel_stream :: "host \<Rightarrow> string \<Rightarrow> int \<Rightarrow> ledger \<Rightarrow> ledger outcome" where
  "cancel_stream h caller sid l =
     initialized l
    (and_then (find_stream l sid) (\<lambda>(s, m).
     require (caller = stream_sender s) ''Unauthorized''
    (require (stream_status s = Active \<or> stream_status s = Paused) ''StreamCannotBeCanceled''
    (and_then (withdrawable (ledger_time h) s) (\<lambda>payout.
     and_then (checked_sub (balance s) payout) (\<lambda>refund.
     transfer h (stream_token s) (contract_address h) (stream_recipient s) payout
    (transfer h (stream_token s) (contract_address h) (stream_sender s) refund
    (and_then (counter_add 64 (total_active_streams (metrics l)) (- 1)) (\<lambda>active.
       Inr (l\<lparr>streams := (streams l)(sid \<mapsto>
              (s\<lparr>stream_status := Canceled, paused_at := None\<rparr>, m)),
              metrics := (metrics l)\<lparr>total_active_streams := active\<rparr>\<rparr>))))))))))"

text \<open>
  Modelled from the spec: the contract's \<open>set_delegate\<close> (section 4.3), by the recipient
  (\<open>Unauthorized\<close>). It rejects the recipient as delegate (\<open>InvalidDelegate\<close>) and a
  terminal stream (\<open>StreamNotActive\<close>), overwrites any delegate, increments
  \<open>total_delegations\<close> of the stream and of the protocol and updates
  \<open>last_delegation_time\<close>.
\<close>

definition set_delegate :: "host \<Rightarrow> string \<Rightarrow> int \<Rightarrow> string \<Rightarrow> ledger \<Rightarrow> ledger outcome" where
  "set_delegate h caller sid delegate l =
     initialized l
    (and_then (find_stream l sid) (\<lambda>(s, m).
     require (caller = stream_recipient s) ''Unauthorized''
    (require (delegate \<noteq> stream_recipient s) ''InvalidDelegate''
    (require (\<not> is_terminal s) ''StreamNotActive''
    (and_then (counter_add 32 (stream_total_delegations m) 1) (\<lambda>of_stream.
     and_then (counter_add 64 (total_delegations (metrics l)) 1) (\<lambda>of_protocol.
       Inr (l\<lparr>streams := (streams l)(sid \<mapsto>
              (s, m\<lparr>current_delegate := Some delegate,
                    stream_total_delegations := of_stream,
                    last_delegation_time := ledger_time h\<rparr>)),
              metrics := (metrics l)\<lparr>total_delegations := of_protocol\<rparr>\<rparr>))))))))"

text \<open>
  Modelled from the spec: the contract's \<open>revoke_delegate\<close> (section 4.3), by the
  recipient (\<open>Unauthorized\<close>). It clears the delegate, and succeeds without one.
\<close>

definition revoke_delegate :: "string \<Rightarrow> int \<Rightarrow> ledger \<Rightarrow> ledger outcome" where
  "revoke_delegate caller sid l =
     initialized l
    (and_then (find_stream l sid) (\<lambda>(s, m).
     require (caller = stream_recipient s) ''Unauthorized''
    (Inr (l\<lparr>streams := (streams l)(sid \<mapsto> (s, m\<lparr>current_delegate := None\<rparr>))\<rparr>))))"

text \<open>
  Modelled from the spec: the contract's \<open>withdrawable_amount\<close> (section 4.2), read-only
  and callable in any state but \<open>Canceled\<close> (\<open>StreamNotActive\<close>).
\<close>

definition withdrawable_amount :: "host \<Rightarrow> int \<Rightarrow> ledger \<Rightarrow> int outcome" where
  "withdrawable_amount h sid l =
     initialized l
    (and_then (find_stream l sid) (\<lambda>(s, m).
     require (stream_status s \<noteq> Canceled) ''StreamNotActive''
    (withdrawable (ledger_time h) s)))"

text \<open>
  The methods of the generated \<open>Client\<close> with their parameters, in the order of the
  interface.
\<close>

datatype operation =
    Deposit int int
  | Withdraw int int
  | Get_stream int
  | Initialize string string int
  | Get_delegate int
  | Pause_stream int
  | Set_delegate int string
  | Withdraw_max int
  | Cancel_stream int
  | Create_stream string string string int int int int
  | Resume_stream int
  | Revoke_delegate int
  | Get_fee_collector
  | Set_fee_collector string
  | Get_stream_metrics int
  | Withdrawable_amount int
  | Get_protocol_metrics
  | Get_protocol_fee_rate
  | Set_protocol_fee_rate int

text \<open>What a method of the generated \<open>Client\<close> returns, by its result type.\<close>

datatype reply =
    No_value
  | Number_value int
  | Address_value string
  | Delegate_value "string option"
  | Stream_value stream
  | Stream_metrics_value stream_metrics
  | Protocol_metrics_value protocol_metrics

text \<open>
  Modelled from the spec: the contract's reply to an operation that returns nothing
  (section 6).
\<close>

definition without_value :: "ledger outcome \<Rightarrow> (reply \<times> ledger) outcome" where
  "without_value r = and_then r (\<lambda>l. Inr (No_value, l))"

text \<open>
  Modelled from the spec: the contract's entry points (section 6): one call by a caller,
  giving the reply and the ledger it leaves, or the error kind. The read-only operations
  leave the ledger as it is.
\<close>

fun invoke :: "host \<Rightarrow> string \<Rightarrow> operation \<Rightarrow> ledger \<Rightarrow> (reply \<times> ledger) outcome" where
  "invoke h caller (Deposit sid amount') l = without_value (deposit h caller sid amount' l)"
| "invoke h caller (Withdraw sid amount') l = without_value (withdraw h caller sid amount' l)"
| "invoke h caller (Get_stream sid) l =
     initialized l (and_then (find_stream l sid) (\<lambda>(s, m). Inr (Stream_value s, l)))"
| "invoke h caller (Initialize new_admin new_fee_collector general_fee_rate) l =
     without_value (initialize h new_admin new_fee_collector general_fee_rate l)"
| "invoke h caller (Get_delegate sid) l =
     initialized l
       (and_then (find_stream l sid) (\<lambda>(s, m). Inr (Delegate_value (current_delegate m), l)))"
| "invoke h caller (Pause_stream sid) l = without_value (pause_stream h caller sid l)"
| "invoke h caller (Set_delegate sid delegate) l =
     without_value (set_delegate h caller sid delegate l)"
| "invoke h caller (Withdraw_max sid) l = without_value (withdraw_max h caller sid l)"
| "invoke h caller (Cancel_stream sid) l = without_value (cancel_stream h caller sid l)"
| "invoke h caller
       (Create_stream sender recipient token total_amount' initial_amount start_time' end_time')
       l =
     and_then
       (create_stream h caller sender recipient token total_amount' initial_amount start_time'
          end_time' l)
       (\<lambda>(sid, l'). Inr (Number_value sid, l'))"
| "invoke h caller (Resume_stream sid) l = without_value (resume_stream h caller sid l)"
| "invoke h caller (Revoke_delegate sid) l = without_value (revoke_delegate caller sid l)"
| "invoke h caller Get_fee_collector l =
     initialized l (Inr (Address_value (fee_collector l), l))"
| "invoke h caller (Set_fee_collector new_fee_collector) l =
     without_value (set_fee_collector caller new_fee_collector l)"
| "invoke h caller (Get_stream_metrics sid) l =
     initialized l
       (and_then (find_stream l sid) (\<lambda>(s, m). Inr (Stream_metrics_value m, l)))"
| "invoke h caller (Withdrawable_amount sid) l =
     and_then (withdrawable_amount h sid l) (\<lambda>a. Inr (Number_value a, l))"
| "invoke h caller Get_protocol_metrics l =
     initialized l (Inr (Protocol_metrics_value (metrics l), l))"
| "invoke h caller Get_protocol_fee_rate l =
     initialized l (Inr (Number_value (protocol_fee_rate l), l))"
| "invoke h caller (Set_protocol_fee_rate new_fee_rate) l =
     without_value (set_protocol_fee_rate h caller new_fee_rate l)"

text \<open>
  A failure is typed when its kind is one of the messages of the table \<open>Errors\<close>.
\<close>

definition typed_failure :: "'a outcome \<Rightarrow> bool" where
  "typed_failure r = (case r of Inl kind \<Rightarrow> kind \<in> snd ` set Errors | Inr x \<Rightarrow> True)"

section \<open>Evaluation\<close>

lemma double_limit_numeral [code]:
  "double_limit = 179769313486231590772930519078902473361797697894230657273430081157732675805500963132708477322407536021120113879871393357658789768814416622492847430639474124377767893424865485276302219601246094119453082952085005768838150682342462881473913110540827237163350510684586298239947245938479716304835356329624224137216"
  by (simp add: double_limit_def)

section \<open>Properties of rounding\<close>

lemma pow2_less_iff [simp]: "(2::rat) powi m < 2 powi n \<longleftrightarrow> m < n"
proof
  assume lt: "(2::rat) powi m < 2 powi n"
  show "m < n"
  proof (rule ccontr)
    assume "\<not> m < n"
    then have "(2::rat) powi n \<le> 2 powi m" by (intro power_int_increasing) auto
    with lt show False by simp
  qed
next
  assume "m < n"
  then show "(2::rat) powi m < 2 powi n" by (intro power_int_strict_increasing) auto
qed

lemma pow2_le_iff [simp]: "(2::rat) powi m \<le> 2 powi n \<longleftrightarrow> m \<le> n"
  using pow2_less_iff [of n m] by (simp only: not_less [symmetric])

lemma round_even_cases: "round_even x = \<lfloor>x\<rfloor> \<or> round_even x = \<lfloor>x\<rfloor> + 1"
  by (simp add: round_even_def Let_def)

lemma round_even_of_int [simp]: "round_even (of_int n) = n"
  by (simp add: round_even_def)

lemma round_even_error: "\<bar>of_int (round_even x) - x\<bar> \<le> 1 / 2"
proof -
  define d where "d = x - of_int \<lfloor>x\<rfloor>"
  have "0 \<le> d" and "d < 1" unfolding d_def by linarith+
  moreover have "x = of_int \<lfloor>x\<rfloor> + d" by (simp add: d_def)
  ultimately show ?thesis
    unfolding round_even_def Let_def d_def [symmetric]
    by (auto simp: abs_if)
qed

lemma round_even_ge_int:
  assumes "of_int n \<le> x"
  shows "n \<le> round_even x"
proof -
  from assms have "n \<le> \<lfloor>x\<rfloor>" by (simp add: le_floor_iff)
  with round_even_cases [of x] show ?thesis by auto
qed

lemma round_even_le_int:
  assumes "x \<le> of_int n"
  shows "round_even x \<le> n"
proof (cases "x = of_int n")
  case True
  then show ?thesis by simp
next
  case False
  with assms have "x < of_int n" by simp
  then have "\<lfloor>x\<rfloor> < n" by (simp add: floor_less_iff)
  with round_even_cases [of x] show ?thesis by auto
qed

lemma round_even_mono:
  assumes "x \<le> y"
  shows "round_even x \<le> round_even y"
proof (cases "\<lfloor>x\<rfloor> = \<lfloor>y\<rfloor>")
  case True
  with assms show ?thesis
    by (auto simp: round_even_def Let_def)
next
  case False
  with assms have "\<lfloor>x\<rfloor> < \<lfloor>y\<rfloor>"
    by (simp add: floor_mono order.not_eq_order_implies_strict)
  then have "\<lfloor>x\<rfloor> + 1 \<le> \<lfloor>y\<rfloor>" by simp
  with round_even_cases [of x] round_even_cases [of y] show ?thesis by auto
qed

lemma round_even_nonneg: "0 \<le> x \<Longrightarrow> 0 \<le> round_even x"
  using round_even_ge_int [of 0 x] by simp

lemma round_even_small:
  assumes "0 \<le> z" and "z < 1 / 2"
  shows "round_even z = 0"
proof -
  from assms have "\<lfloor>z\<rfloor> = 0" by (intro floor_unique) simp_all
  with assms show ?thesis by (simp add: round_even_def Let_def)
qed

lemma ilog2_bounds:
  assumes "0 < x"
  shows "2 powi (ilog2 x) \<le> x" and "x < 2 powi (ilog2 x + 1)"
proof -
  obtain p q where pq: "quotient_of x = (p, q)" by (cases "quotient_of x")
  then have q: "0 < q" by (rule quotient_of_denom_pos)
  from pq have x: "x = of_int p / of_int q" by (rule quotient_of_div)
  with assms q have p: "0 < p" by (simp add: zero_less_divide_iff)
  define k where "k = bitlen p - bitlen q"
  have pw: "(2::rat) powi (bitlen a - 1) \<le> of_int a \<and> of_int a < (2::rat) powi (bitlen a)"
    if "0 < a" for a
  proof -
    from that have b: "1 \<le> bitlen a" by (auto simp: bitlen_alt_def)
    from bitlen_bounds [OF that]
    have "rat_of_int (2 ^ nat (bitlen a - 1)) \<le> of_int a"
      and "rat_of_int a < of_int (2 ^ nat (bitlen a))"
      by (simp_all only: of_int_le_iff of_int_less_iff)
    with b show ?thesis
      by (simp add: power_int_nonneg_exp)
  qed
  note P = pw [OF p] and Q = pw [OF q]
  have qr: "0 < rat_of_int q" using q by simp
  have up: "x < 2 powi (k + 1)"
  proof -
    have "of_int p < (2::rat) powi (bitlen p)" using P by simp
    also have "\<dots> = 2 powi (k + 1) * 2 powi (bitlen q - 1)"
      by (simp add: k_def flip: power_int_add)
    also have "\<dots> \<le> 2 powi (k + 1) * of_int q"
      using Q by (intro mult_left_mono) auto
    finally show ?thesis using qr by (simp add: x pos_divide_less_eq)
  qed
  have lo: "2 powi (k - 1) \<le> x"
  proof -
    have "2 powi (k - 1) * rat_of_int q \<le> 2 powi (k - 1) * 2 powi (bitlen q)"
      using Q by (intro mult_left_mono) auto
    also have "\<dots> = 2 powi (bitlen p - 1)"
      by (simp add: k_def flip: power_int_add)
    also have "\<dots> \<le> of_int p" using P by simp
    finally show ?thesis using qr by (simp add: x pos_le_divide_eq)
  qed
  have il: "ilog2 x = (if 2 powi k \<le> x then k else k - 1)"
    by (simp add: ilog2_def pq k_def Let_def)
  show "2 powi (ilog2 x) \<le> x" using lo by (simp add: il)
  show "x < 2 powi (ilog2 x + 1)" using up by (auto simp: il)
qed

lemma ilog2_unique:
  assumes "2 powi k \<le> x" and "x < 2 powi (k + 1)"
  shows "ilog2 x = k"
proof -
  have x: "0 < x" using assms(1) by (rule less_le_trans [rotated]) simp
  note B = ilog2_bounds [OF x]
  have "2 powi k < (2::rat) powi (ilog2 x + 1)" using assms(1) B(2) by (rule le_less_trans)
  then have "k < ilog2 x + 1" by simp
  moreover have "2 powi (ilog2 x) < (2::rat) powi (k + 1)"
    using B(1) assms(2) by (rule le_less_trans)
  then have "ilog2 x < k + 1" by simp
  ultimately show ?thesis by simp
qed

lemma ilog2_mono:
  assumes "0 < x" and "x \<le> y"
  shows "ilog2 x \<le> ilog2 y"
proof -
  have y: "0 < y" using assms by simp
  have "2 powi (ilog2 x) \<le> x" using assms(1) by (rule ilog2_bounds)
  also have "x \<le> y" by fact
  also have "y < 2 powi (ilog2 y + 1)" using y by (rule ilog2_bounds)
  finally show ?thesis by simp
qed

lemma fl_0 [simp]: "fl 0 = 0"
  by (simp add: fl_def)

lemma fl_minus: "fl (- x) = - fl x"
  by (simp add: fl_def ulp_exp_def sgn_minus Let_def)

lemma fl_pos: "0 < x \<Longrightarrow> fl x = of_int (round_even (x / 2 powi ulp_exp x)) * 2 powi ulp_exp x"
  by (simp add: fl_def Let_def)

lemma fl_nonneg:
  assumes "0 \<le> x"
  shows "0 \<le> fl x"
proof (cases "x = 0")
  case True
  then show ?thesis by simp
next
  case False
  with assms have x: "0 < x" by simp
  have "0 \<le> round_even (x / 2 powi ulp_exp x)"
    using x by (intro round_even_nonneg) simp
  then show ?thesis by (simp add: fl_pos [OF x])
qed

lemma fl_nonpos: "x \<le> 0 \<Longrightarrow> fl x \<le> 0"
  using fl_nonneg [of "- x"] by (simp add: fl_minus)

lemma fl_pos_imp: "0 < fl x \<Longrightarrow> 0 < x"
  using fl_nonpos [of x] by (cases "0 < x") auto

lemma fl_error_ulp: "\<bar>fl x - x\<bar> \<le> 2 powi ulp_exp x / 2"
proof -
  have pos: "\<bar>fl y - y\<bar> \<le> 2 powi ulp_exp y / 2" if y: "0 < y" for y
  proof -
    define e where "e = ulp_exp y"
    have "fl y - y = (of_int (round_even (y / 2 powi e)) - y / 2 powi e) * 2 powi e"
      by (simp add: fl_pos [OF y] e_def algebra_simps)
    then have "\<bar>fl y - y\<bar> = \<bar>of_int (round_even (y / 2 powi e)) - y / 2 powi e\<bar> * 2 powi e"
      by (simp add: abs_mult)
    also have "\<dots> \<le> 1 / 2 * 2 powi e"
      by (intro mult_right_mono round_even_error) simp
    finally show ?thesis by (simp add: e_def)
  qed
  consider "x = 0" | "0 < x" | "x < 0" by linarith
  then show ?thesis
  proof cases
    case 1
    then show ?thesis by simp
  next
    case 2
    then show ?thesis by (rule pos)
  next
    case 3
    then have "0 < - x" by simp
    from pos [OF this] show ?thesis
      by (simp add: fl_minus ulp_exp_def abs_minus_commute)
  qed
qed

lemma fl_error_rel:
  assumes "2 powi (- 1022) \<le> \<bar>x\<bar>"
  shows "\<bar>fl x - x\<bar> \<le> \<bar>x\<bar> * 2 powi (- 53)"
proof -
  have x: "0 < \<bar>x\<bar>" using assms by (rule less_le_trans [rotated]) simp
  have "2 powi (- 1022) < (2::rat) powi (ilog2 \<bar>x\<bar> + 1)"
    using assms ilog2_bounds(2) [OF x] by (rule le_less_trans)
  then have "- 1022 < ilog2 \<bar>x\<bar> + 1" by (simp only: pow2_less_iff)
  then have e: "ulp_exp x = ilog2 \<bar>x\<bar> - 52" by (simp add: ulp_exp_def)
  define c :: rat where "c = 2 powi (- 53)"
  have c: "0 \<le> c" by (simp only: c_def zero_le_power_int zero_le_numeral)
  have "(2::rat) powi (ilog2 \<bar>x\<bar> - 53 + 1) = 2 powi (ilog2 \<bar>x\<bar> - 53) * 2"
    by (rule power_int_add_1) simp
  moreover have "(2::rat) powi (ilog2 \<bar>x\<bar> + - 53) = 2 powi (ilog2 \<bar>x\<bar>) * c"
    unfolding c_def by (rule power_int_add) simp
  ultimately have eq: "2 powi ulp_exp x / 2 = 2 powi (ilog2 \<bar>x\<bar>) * c"
    by (simp add: e)
  have "\<bar>fl x - x\<bar> \<le> 2 powi ulp_exp x / 2" by (rule fl_error_ulp)
  also have "\<dots> = 2 powi (ilog2 \<bar>x\<bar>) * c" by (rule eq)
  also have "\<dots> \<le> \<bar>x\<bar> * c"
    using ilog2_bounds(1) [OF x] c by (rule mult_right_mono)
  finally show ?thesis by (simp only: c_def)
qed

lemma fl_upper:
  assumes x: "0 < x"
  shows "fl x \<le> 2 powi (ilog2 x + 1)"
proof -
  define k where "k = ilog2 x"
  define e where "e = ulp_exp x"
  have xk: "x < 2 powi (k + 1)" unfolding k_def using x by (rule ilog2_bounds)
  show ?thesis
  proof (cases "e \<le> k + 1")
    case True
    have "x / 2 powi e \<le> 2 powi (k + 1) / 2 powi e"
      using xk by (intro divide_right_mono) simp_all
    moreover have "(2::rat) powi (k + 1) / 2 powi e = of_int (2 ^ nat (k + 1 - e))"
      using True by (simp add: power_int_nonneg_exp flip: power_int_diff)
    ultimately have "round_even (x / 2 powi e) \<le> 2 ^ nat (k + 1 - e)"
      by (intro round_even_le_int) simp
    then have "rat_of_int (round_even (x / 2 powi e)) \<le> of_int (2 ^ nat (k + 1 - e))"
      by (simp only: of_int_le_iff)
    also have "\<dots> = 2 powi (k + 1) / 2 powi e"
      using True by (simp add: power_int_nonneg_exp flip: power_int_diff)
    finally have "rat_of_int (round_even (x / 2 powi e)) * 2 powi e \<le> 2 powi (k + 1)"
      by (simp add: pos_le_divide_eq)
    then show ?thesis by (simp add: fl_pos [OF x] e_def k_def)
  next
    case False
    then have "k + 1 - e \<le> - 1" by simp
    then have "(2::rat) powi (k + 1 - e) \<le> 2 powi (- 1)" by (simp only: pow2_le_iff)
    then have h: "(2::rat) powi (k + 1) / 2 powi e \<le> 1 / 2"
      by (simp add: power_int_diff)
    have "x / 2 powi e < 2 powi (k + 1) / 2 powi e"
      using xk by (intro divide_strict_right_mono) simp_all
    then have lt: "x / 2 powi e < 1 / 2" using h by (rule less_le_trans)
    have "0 \<le> x / 2 powi e" using x by simp
    then have "round_even (x / 2 powi e) = 0" using lt by (rule round_even_small)
    then show ?thesis by (simp add: fl_pos [OF x] e_def)
  qed
qed

lemma fl_lower:
  assumes x: "0 < x" and n: "- 1022 \<le> ilog2 x"
  shows "2 powi (ilog2 x) \<le> fl x"
proof -
  define k where "k = ilog2 x"
  have ax: "\<bar>x\<bar> = x" using x by simp
  have e: "ulp_exp x = k - 52" using n by (simp add: ulp_exp_def ax k_def)
  have "2 powi k \<le> x" unfolding k_def using x by (rule ilog2_bounds)
  then have "2 powi k / 2 powi (k - 52) \<le> x / 2 powi (k - 52)"
    by (intro divide_right_mono) simp_all
  moreover have "(2::rat) powi k / 2 powi (k - 52) = of_int (2 ^ 52)"
    by (simp flip: power_int_diff)
  ultimately have "2 ^ 52 \<le> round_even (x / 2 powi (k - 52))"
    by (intro round_even_ge_int) simp
  then have "rat_of_int (2 ^ 52) \<le> of_int (round_even (x / 2 powi (k - 52)))"
    by (simp only: of_int_le_iff)
  then have "rat_of_int (2 ^ 52) * 2 powi (k - 52) \<le> fl x"
    by (simp add: fl_pos [OF x] e)
  moreover have "rat_of_int (2 ^ 52) * 2 powi (k - 52) = 2 powi k"
    using power_int_add [of "2::rat" 52 "k - 52"] by simp
  ultimately show ?thesis by (simp add: k_def)
qed

lemma fl_mono_pos:
  assumes x: "0 < x" and xy: "x \<le> y"
  shows "fl x \<le> fl y"
proof -
  have y: "0 < y" using assms by simp
  have ax: "\<bar>x\<bar> = x" "\<bar>y\<bar> = y" using x y by simp_all
  have kk: "ilog2 x \<le> ilog2 y" using x xy by (rule ilog2_mono)
  show ?thesis
  proof (cases "ulp_exp x = ulp_exp y")
    case True
    have "x / 2 powi ulp_exp y \<le> y / 2 powi ulp_exp y"
      using xy by (intro divide_right_mono) simp_all
    then have "round_even (x / 2 powi ulp_exp y) \<le> round_even (y / 2 powi ulp_exp y)"
      by (rule round_even_mono)
    then show ?thesis
      by (simp add: fl_pos [OF x] fl_pos [OF y] True)
  next
    case False
    with kk have lt: "ilog2 x < ilog2 y" and n: "- 1022 \<le> ilog2 y"
      by (auto simp: ulp_exp_def ax max_def split: if_splits)
    have "fl x \<le> 2 powi (ilog2 x + 1)" using x by (rule fl_upper)
    also have "\<dots> \<le> 2 powi (ilog2 y)" using lt by simp
    also have "\<dots> \<le> fl y" using y n by (rule fl_lower)
    finally show ?thesis .
  qed
qed

lemma fl_mono:
  assumes "x \<le> y"
  shows "fl x \<le> fl y"
proof -
  consider "0 < x" | "x \<le> 0" "0 \<le> y" | "y < 0" using assms by linarith
  then show ?thesis
  proof cases
    case 1
    then show ?thesis using assms by (rule fl_mono_pos)
  next
    case 2
    then show ?thesis using fl_nonpos [of x] fl_nonneg [of y] by simp
  next
    case 3
    then have "0 < - y" and "- y \<le> - x" using assms by simp_all
    then have "fl (- y) \<le> fl (- x)" by (rule fl_mono_pos)
    then show ?thesis by (simp add: fl_minus)
  qed
qed

lemma fl_repr_pos:
  assumes m: "0 < m" "m < 2 ^ 53" and e: "- 1074 \<le> e"
  shows "fl (of_int m * 2 powi e) = of_int m * 2 powi e"
proof -
  define x :: rat where "x = of_int m * 2 powi e"
  have x: "0 < x" using m by (simp add: x_def)
  define u where "u = ulp_exp x"
  have "rat_of_int m < of_int (2 ^ 53)" using m(2) by (simp only: of_int_less_iff)
  then have "x < 2 ^ 53 * 2 powi e"
    unfolding x_def by (intro mult_strict_right_mono) simp_all
  also have "\<dots> = 2 powi (53 + e)"
    using power_int_add [of "2::rat" 53 e] by simp
  finally have "x < 2 powi (53 + e)" .
  with ilog2_bounds(1) [OF x] have "2 powi (ilog2 x) < (2::rat) powi (53 + e)"
    by (rule le_less_trans)
  then have "ilog2 x < 53 + e" by (simp only: pow2_less_iff)
  with e have ue: "u \<le> e" using x by (simp add: u_def ulp_exp_def)
  have "x / 2 powi u = of_int m * 2 powi (e - u)"
    by (simp add: x_def power_int_diff)
  also have "\<dots> = of_int (m * 2 ^ nat (e - u))"
    using ue by (simp add: power_int_nonneg_exp)
  finally have "round_even (x / 2 powi u) = m * 2 ^ nat (e - u)"
    by (simp only: round_even_of_int)
  then have "fl x = of_int (m * 2 ^ nat (e - u)) * 2 powi u"
    by (simp add: fl_pos [OF x] u_def)
  also have "\<dots> = of_int m * 2 powi (e - u) * 2 powi u"
    using ue by (simp add: power_int_nonneg_exp)
  also have "\<dots> = x"
    using power_int_add [of "2::rat" "e - u" u] by (simp add: x_def)
  finally show ?thesis by (simp add: x_def)
qed

lemma fl_repr:
  assumes m: "\<bar>m\<bar> \<le> 2 ^ 53" and e: "- 1074 \<le> e"
  shows "fl (of_int m * 2 powi e) = of_int m * 2 powi e"
proof -
  have pos: "fl (of_int n * 2 powi e) = of_int n * 2 powi e" if n: "0 < n" "n \<le> 2 ^ 53" for n
  proof (cases "n = 2 ^ 53")
    case False
    with n have "n < 2 ^ 53" by simp
    with n(1) show ?thesis using e by (intro fl_repr_pos)
  next
    case True
    have "rat_of_int n * 2 powi e = of_int (2 ^ 52) * 2 powi (e + 1)"
      using power_int_add [of "2::rat" e 1] by (simp add: True)
    moreover have "fl (of_int (2 ^ 52) * 2 powi (e + 1)) = of_int (2 ^ 52) * 2 powi (e + 1)"
      using e by (intro fl_repr_pos) simp_all
    ultimately show ?thesis by simp
  qed
  consider "m = 0" | "0 < m" | "m < 0" by linarith
  then show ?thesis
  proof cases
    case 1
    then show ?thesis by simp
  next
    case 2
    with m show ?thesis by (intro pos) simp_all
  next
    case 3
    with m have "fl (of_int (- m) * 2 powi e) = of_int (- m) * 2 powi e"
      by (intro pos) simp_all
    then show ?thesis using fl_minus [of "of_int m * 2 powi e"] by simp
  qed
qed

lemma fl_int:
  assumes "\<bar>n\<bar> \<le> 2 ^ 53"
  shows "fl (of_int n) = of_int n"
  using fl_repr [OF assms, of 0] by simp

lemma fl_idem: "fl (fl x) = fl x"
proof -
  have pos: "fl (fl y) = fl y" if y: "0 < y" for y
  proof -
    define u where "u = ulp_exp y"
    define r where "r = round_even (y / 2 powi u)"
    have f: "fl y = of_int r * 2 powi u" by (simp add: fl_pos [OF y] u_def r_def)
    have ay: "\<bar>y\<bar> = y" using y by simp
    have u1: "ilog2 y - 52 \<le> u" and u2: "- 1074 \<le> u"
      by (simp_all add: u_def ulp_exp_def ay)
    have "y < 2 powi (ilog2 y + 1)" using y by (rule ilog2_bounds)
    also have "\<dots> \<le> 2 powi (53 + u)" using u1 by simp
    finally have "y / 2 powi u < 2 powi (53 + u) / 2 powi u"
      by (intro divide_strict_right_mono) simp_all
    also have "(2::rat) powi (53 + u) / 2 powi u = of_int (2 ^ 53)"
      using power_int_add [of "2::rat" 53 u] by simp
    finally have "r \<le> 2 ^ 53" unfolding r_def by (intro round_even_le_int) simp
    moreover have "0 \<le> r" unfolding r_def using y by (intro round_even_nonneg) simp
    ultimately have "\<bar>r\<bar> \<le> 2 ^ 53" by simp
    then show ?thesis unfolding f using u2 by (rule fl_repr)
  qed
  consider "x = 0" | "0 < x" | "x < 0" by linarith
  then show ?thesis
  proof cases
    case 1
    then show ?thesis by simp
  next
    case 2
    then show ?thesis by (rule pos)
  next
    case 3
    then have "fl (fl (- x)) = fl (- x)" by (intro pos) simp
    then show ?thesis by (simp add: fl_minus)
  qed
qed
section \<open>Order and arithmetic on numbers\<close>

lemma double_limit_pos: "0 < double_limit"
  by (simp add: double_limit_def)

lemma to_number_cases:
  "to_number x = PosInf \<and> double_limit \<le> fl x
   \<or> to_number x = NegInf \<and> fl x \<le> - double_limit
   \<or> to_number x = Fin (fl x) \<and> - double_limit < fl x \<and> fl x < double_limit"
  using double_limit_pos by (auto simp: to_number_def Let_def)

lemma to_number_not_NaN [simp]: "to_number x \<noteq> NaN"
  using to_number_cases [of x] by auto

lemma num_le_NegInf [simp]: "num_le NegInf a = (a \<noteq> NaN)"
  by (cases a) auto

lemma num_le_PosInf [simp]: "num_le a PosInf = (a \<noteq> NaN)"
  by (cases a) auto


lemma num_le_trans: "num_le a b \<Longrightarrow> num_le b c \<Longrightarrow> num_le a c"
  by (cases a; cases b; cases c) auto


lemma to_number_mono:
  assumes "x \<le> y"
  shows "num_le (to_number x) (to_number y)"
  using fl_mono [OF assms] to_number_cases [of x] to_number_cases [of y] double_limit_pos
  by auto

lemma to_number_0 [simp]: "to_number 0 = Fin 0"
  using double_limit_pos by (simp add: to_number_def)

lemma to_number_nonneg:
  assumes "0 \<le> x"
  shows "num_le (Fin 0) (to_number x)"
  using to_number_mono [OF assms] by simp





lemma num_mul_mono:
  assumes "num_le a b" and "0 < t"
  shows "num_le (num_mul (Fin t) a) (num_mul (Fin t) b)"
proof (cases a; cases b)
  fix x y assume "a = Fin x" "b = Fin y"
  with assms show ?thesis by (simp add: to_number_mono)
qed (use assms in \<open>auto simp: signed_inf_def\<close>)

lemma num_div_mono:
  assumes "num_le a b" and "0 < d"
  shows "num_le (num_div a (Fin d)) (num_div b (Fin d))"
proof (cases a; cases b)
  fix x y assume "a = Fin x" "b = Fin y"
  with assms show ?thesis by (simp add: to_number_mono divide_right_mono)
qed (use assms in \<open>auto simp: signed_inf_def\<close>)

section \<open>Address validators agree\<close>

lemma trim_no_ws:
  assumes "list_all (\<lambda>c. \<not> is_ws c) s"
  shows "trim s = s"
proof (cases s)
  case Nil
  then show ?thesis by (simp add: trim_def)
next
  case (Cons c cs)
  with assms have h: "\<not> is_ws (hd s)" by simp
  from Cons assms have l: "\<not> is_ws (last s)"
    by (metis last_in_set list.distinct(1) list_all_iff)
  from h have "dropWhile is_ws s = s"
    by (simp add: dropWhile_eq_self_iff)
  moreover from l have "dropWhile is_ws (rev s) = rev s"
    by (simp add: dropWhile_eq_self_iff hd_rev)
  ultimately show ?thesis by (simp add: trim_def)
qed

lemma base32_not_ws: "is_base32 c \<Longrightarrow> \<not> is_ws c"
  by (auto simp: is_base32_def is_ws_def)

lemma GC_not_ws: "c = CHR ''G'' \<or> c = CHR ''C'' \<Longrightarrow> \<not> is_ws c"
  by (auto simp: is_ws_def code_def)

lemma base32Regex_trim: "base32Regex s \<Longrightarrow> trim s = s"
proof (cases s)
  case Nil
  then show "base32Regex s \<Longrightarrow> trim s = s" by simp
next
  case (Cons c cs)
  assume "base32Regex s"
  with Cons have "\<not> is_ws c" and "list_all is_base32 cs"
    by (auto simp: GC_not_ws)
  with Cons have "list_all (\<lambda>c. \<not> is_ws c) s"
    by (auto simp: list_all_iff base32_not_ws)
  then show "trim s = s" by (rule trim_no_ws)
qed

lemma base32Regex_length: "base32Regex s \<Longrightarrow> length s = 56"
  by (cases s) auto

lemma base32Regex_starts: "base32Regex s \<Longrightarrow> startsWith s ''G'' \<or> startsWith s ''C''"
  by (cases s) (auto simp: startsWith_def)

lemma isValidStellarAddress_regex: "isValidStellarAddress a = base32Regex a"
proof (cases "base32Regex a")
  case True
  then show ?thesis
    using base32Regex_length [OF True] base32Regex_starts [OF True]
    by (auto simp: isValidStellarAddress_def)
next
  case False
  then show ?thesis by (simp add: isValidStellarAddress_def)
qed

lemma validateStellarAddress_regex: "(validateStellarAddress a = None) = base32Regex a"
proof (cases "base32Regex a")
  case True
  then show ?thesis
    using base32Regex_length [OF True] base32Regex_starts [OF True] base32Regex_trim [OF True]
    by (auto simp: validateStellarAddress_def)
next
  case False
  then show ?thesis by (simp add: validateStellarAddress_def)
qed

text \<open>
  Claim C8. The two address validators accept the same strings:
  \<open>validateStellarAddress\<close> returns \<open>null\<close> exactly when \<open>isValidStellarAddress\<close>
  returns \<open>true\<close>, and that is exactly when the string has 56 characters, the first
  one \<open>G\<close> or \<open>C\<close> and the other 55 in \<open>A-Z\<close> or \<open>2-7\<close>.
\<close>

theorem address_validators_agree:
  "(validateStellarAddress a = None) = isValidStellarAddress a \<and>
   isValidStellarAddress a =
     (length a = 56 \<and> (hd a = CHR ''G'' \<or> hd a = CHR ''C'') \<and> list_all is_base32 (tl a))"
proof -
  have "base32Regex a =
     (length a = 56 \<and> (hd a = CHR ''G'' \<or> hd a = CHR ''C'') \<and> list_all is_base32 (tl a))"
    by (cases a) auto
  then show ?thesis
    by (simp add: isValidStellarAddress_regex validateStellarAddress_regex)
qed

theorem address_validators_agree_witness:
  "validateStellarAddress ''GAAAAAAAAAAAAAAAAAAAAAAAAAAAAAAAAAAAAAAAAAAAAAAAAAAAAWHF'' = None \<and>
   isValidStellarAddress ''GAAAAAAAAAAAAAAAAAAAAAAAAAAAAAAAAAAAAAAAAAAAAAAAAAAAAWHF'' \<and>
   validateStellarAddress '' GAAAAAAAAAAAAAAAAAAAAAAAAAAAAAAAAAAAAAAAAAAAAAAAAAAAAWHF'' \<noteq> None \<and>
   \<not> isValidStellarAddress ''gaaaaaaaaaaaaaaaaaaaaaaaaaaaaaaaaaaaaaaaaaaaaaaaaaaaawhf''"
  using address_validators_agree
    [of "''GAAAAAAAAAAAAAAAAAAAAAAAAAAAAAAAAAAAAAAAAAAAAAAAAAAAAWHF''"]
    address_validators_agree
    [of "'' GAAAAAAAAAAAAAAAAAAAAAAAAAAAAAAAAAAAAAAAAAAAAAAAAAAAAWHF''"]
    address_validators_agree
    [of "''gaaaaaaaaaaaaaaaaaaaaaaaaaaaaaaaaaaaaaaaaaaaaaaaaaaaawhf''"]
  by (simp add: is_base32_def code_def)

section \<open>The error table and the failures of the ledger\<close>

lemma typed_Inr [simp]: "typed_failure (Inr x)"
  by (simp add: typed_failure_def)

lemma typed_Inl [simp]: "typed_failure (Inl kind) = (kind \<in> snd ` set Errors)"
  by (simp add: typed_failure_def)

lemma error_kinds [simp]:
  "''AlreadyInitialized'' \<in> snd ` set Errors" "''NotInitialized'' \<in> snd ` set Errors"
  "''Unauthorized'' \<in> snd ` set Errors" "''InvalidAmount'' \<in> snd ` set Errors"
  "''InvalidTimeRange'' \<in> snd ` set Errors" "''StreamNotFound'' \<in> snd ` set Errors"
  "''StreamNotActive'' \<in> snd ` set Errors" "''StreamNotPaused'' \<in> snd ` set Errors"
  "''StreamCannotBeCanceled'' \<in> snd ` set Errors"
  "''InsufficientWithdrawable'' \<in> snd ` set Errors" "''TransferFailed'' \<in> snd ` set Errors"
  "''FeeTooHigh'' \<in> snd ` set Errors" "''InvalidRecipient'' \<in> snd ` set Errors"
  "''DepositExceedsTotal'' \<in> snd ` set Errors" "''ArithmeticOverflow'' \<in> snd ` set Errors"
  "''InvalidDelegate'' \<in> snd ` set Errors"
  by (simp_all add: Errors_def)

lemma typed_require [simp]:
  "typed_failure (require c kind rest) =
     ((c \<longrightarrow> typed_failure rest) \<and> (\<not> c \<longrightarrow> kind \<in> snd ` set Errors))"
  by (cases c) (simp_all add: require_def)

lemma typed_and_then:
  "typed_failure r \<Longrightarrow> (\<And>x. typed_failure (f x)) \<Longrightarrow> typed_failure (and_then r f)"
  by (cases r) (simp_all add: and_then_def typed_failure_def)

lemma typed_arithmetic [simp]:
  "typed_failure (checked_add a b)" "typed_failure (checked_sub a b)"
  "typed_failure (proportion a n d)" "typed_failure (counter_add bits c e)"
  by (simp_all add: checked_add_def checked_sub_def proportion_def counter_add_def)

lemma typed_find_stream [simp]: "typed_failure (find_stream l sid)"
  by (simp add: find_stream_def split: option.split)

lemma typed_withdrawable [simp]: "typed_failure (withdrawable now s)"
  by (simp add: withdrawable_def vested_def Let_def typed_and_then)

lemma typed_initialize: "typed_failure (initialize h a c r l)"
  by (simp add: initialize_def)

lemma typed_set_protocol_fee_rate: "typed_failure (set_protocol_fee_rate h caller r l)"
  by (simp add: set_protocol_fee_rate_def initialized_def)

lemma typed_set_fee_collector: "typed_failure (set_fee_collector caller c l)"
  by (simp add: set_fee_collector_def initialized_def)

lemma typed_create_stream:
  "typed_failure (create_stream h caller sender recipient token total_amount' initial_amount start_time' end_time' l)"
  by (simp add: create_stream_def initialized_def transfer_def typed_and_then)

lemma typed_deposit: "typed_failure (deposit h caller sid amount' l)"
  by (simp add: deposit_def initialized_def transfer_def typed_and_then split: prod.split)

lemma typed_withdraw: "typed_failure (withdraw h caller sid amount' l)"
  by (simp add: withdraw_def initialized_def transfer_def typed_and_then split: prod.split)

lemma typed_withdraw_max: "typed_failure (withdraw_max h caller sid l)"
  by (simp add: withdraw_max_def initialized_def typed_withdraw typed_and_then
      split: prod.split)

lemma typed_pause_stream: "typed_failure (pause_stream h caller sid l)"
  by (simp add: pause_stream_def initialized_def typed_and_then split: prod.split)

lemma typed_resume_stream: "typed_failure (resume_stream h caller sid l)"
  by (simp add: resume_stream_def initialized_def typed_and_then split: prod.split)

lemma typed_cancel_stream: "typed_failure (cancel_stream h caller sid l)"
  by (simp add: cancel_stream_def initialized_def transfer_def typed_and_then
      split: prod.split)

lemma typed_set_delegate: "typed_failure (set_delegate h caller sid delegate l)"
  by (simp add: set_delegate_def initialized_def typed_and_then split: prod.split)

lemma typed_revoke_delegate: "typed_failure (revoke_delegate caller sid l)"
  by (simp add: revoke_delegate_def initialized_def typed_and_then split: prod.split)

lemma typed_withdrawable_amount: "typed_failure (withdrawable_amount h sid l)"
  by (simp add: withdrawable_amount_def initialized_def typed_and_then split: prod.split)

lemma typed_without_value: "typed_failure r \<Longrightarrow> typed_failure (without_value r)"
  by (simp add: without_value_def typed_and_then)

lemma typed_invoke: "typed_failure (invoke h caller op l)"
  by (cases op)
    (simp_all add: typed_without_value typed_and_then initialized_def typed_initialize
      typed_set_protocol_fee_rate typed_set_fee_collector typed_create_stream typed_deposit
      typed_withdraw typed_withdraw_max typed_pause_stream typed_resume_stream
      typed_cancel_stream typed_set_delegate typed_revoke_delegate typed_withdrawable_amount
      split: prod.split)

lemma Errors_keys: "map fst Errors = [1 ..< 17]"
  by (simp add: Errors_def upt_rec)

lemma Errors_lookup:
  assumes "kind \<in> snd ` set Errors"
  shows "\<exists>code. 1 \<le> code \<and> code \<le> 16 \<and> map_of Errors code = Some kind"
proof -
  from assms obtain code where mem: "(code, kind) \<in> set Errors" by auto
  have "distinct (map fst Errors)" by (simp add: Errors_keys)
  then have "map_of Errors code = Some kind" using mem by (rule map_of_is_SomeI)
  moreover from mem have "code \<in> set (map fst Errors)" by force
  then have "1 \<le> code \<and> code \<le> 16" unfolding Errors_keys by auto
  ultimately show ?thesis by blast
qed

text \<open>
  Claim C4. The payment-stream error table has exactly sixteen kinds, numbered 1 to 16
  in this order: AlreadyInitialized, NotInitialized, Unauthorized, InvalidAmount,
  InvalidTimeRange, StreamNotFound, StreamNotActive, StreamNotPaused,
  StreamCannotBeCanceled, InsufficientWithdrawable, TransferFailed, FeeTooHigh,
  InvalidRecipient, DepositExceedsTotal, ArithmeticOverflow, InvalidDelegate. The names
  are pairwise distinct, an error number is given a kind by the table exactly when it
  lies between 1 and 16, and every failure of an operation of the ledger, for every
  host, caller, operation and state, has a kind that the table lists under one of these
  numbers.
\<close>

theorem errors_taxonomy:
  "length Errors = 16 \<and>
   map fst Errors = [1 ..< 17] \<and>
   map snd Errors =
     [''AlreadyInitialized'', ''NotInitialized'', ''Unauthorized'', ''InvalidAmount'',
      ''InvalidTimeRange'', ''StreamNotFound'', ''StreamNotActive'', ''StreamNotPaused'',
      ''StreamCannotBeCanceled'', ''InsufficientWithdrawable'', ''TransferFailed'',
      ''FeeTooHigh'', ''InvalidRecipient'', ''DepositExceedsTotal'', ''ArithmeticOverflow'',
      ''InvalidDelegate''] \<and>
   distinct (map snd Errors) \<and>
   (map_of Errors n \<noteq> None) = (1 \<le> n \<and> n \<le> 16) \<and>
   (invoke h caller op l = Inl kind \<longrightarrow>
      (\<exists>code. 1 \<le> code \<and> code \<le> 16 \<and> map_of Errors code = Some kind))"
proof -
  have "(map_of Errors n \<noteq> None) = (n \<in> set (map fst Errors))"
    by (simp add: map_of_eq_None_iff)
  also have "\<dots> = (1 \<le> n \<and> n \<le> 16)"
    unfolding Errors_keys by auto
  finally have table: "(map_of Errors n \<noteq> None) = (1 \<le> n \<and> n \<le> 16)" .
  have ops: "invoke h caller op l = Inl kind \<longrightarrow>
      (\<exists>code. 1 \<le> code \<and> code \<le> 16 \<and> map_of Errors code = Some kind)"
  proof
    assume "invoke h caller op l = Inl kind"
    with typed_invoke [of h caller op l] have "kind \<in> snd ` set Errors"
      by simp
    then show "\<exists>code. 1 \<le> code \<and> code \<le> 16 \<and> map_of Errors code = Some kind"
      by (rule Errors_lookup)
  qed
  have "length Errors = 16" "map snd Errors =
     [''AlreadyInitialized'', ''NotInitialized'', ''Unauthorized'', ''InvalidAmount'',
      ''InvalidTimeRange'', ''StreamNotFound'', ''StreamNotActive'', ''StreamNotPaused'',
      ''StreamCannotBeCanceled'', ''InsufficientWithdrawable'', ''TransferFailed'',
      ''FeeTooHigh'', ''InvalidRecipient'', ''DepositExceedsTotal'', ''ArithmeticOverflow'',
      ''InvalidDelegate'']" "distinct (map snd Errors)"
    by (simp_all add: Errors_def)
  with Errors_keys table ops show ?thesis by blast
qed

theorem errors_taxonomy_witness:
  "invoke \<lparr>ledger_time = 0, contract_address = ''CONTRACT'',
            token_transfer = (\<lambda>token sender receiver amount'. True), max_fee_rate = 10000\<rparr>
     ''GCALLER'' (Deposit 0 (- 1))
     \<lparr>admin = Some ''GADMIN'', fee_collector = ''GFEES'', protocol_fee_rate = 0,
      streams = (\<lambda>sid. None), next_stream_id = 0,
      metrics = \<lparr>total_streams_created = 0, total_active_streams = 0,
                  total_delegations = 0, total_tokens_streamed = 0\<rparr>\<rparr> =
     Inl ''InvalidAmount'' \<and>
   (\<exists>code. 1 \<le> code \<and> code \<le> 16 \<and> map_of Errors code = Some ''InvalidAmount'') \<and>
   map_of Errors 4 = Some ''InvalidAmount'' \<and> map_of Errors 16 = Some ''InvalidDelegate'' \<and>
   map_of Errors 0 = None \<and> map_of Errors 17 = None"
proof -
  have failing: "invoke \<lparr>ledger_time = 0, contract_address = ''CONTRACT'',
            token_transfer = (\<lambda>token sender receiver amount'. True), max_fee_rate = 10000\<rparr>
     ''GCALLER'' (Deposit 0 (- 1))
     \<lparr>admin = Some ''GADMIN'', fee_collector = ''GFEES'', protocol_fee_rate = 0,
      streams = (\<lambda>sid. None), next_stream_id = 0,
      metrics = \<lparr>total_streams_created = 0, total_active_streams = 0,
                  total_delegations = 0, total_tokens_streamed = 0\<rparr>\<rparr> =
     Inl ''InvalidAmount''"
    by (simp add: without_value_def deposit_def initialized_def require_def and_then_def)
  have ex: "\<exists>code. 1 \<le> code \<and> code \<le> 16 \<and> map_of Errors code = Some ''InvalidAmount''"
    using errors_taxonomy [where kind = "''InvalidAmount''" and op = "Deposit 0 (- 1)"] failing
    by blast
  have table: "map_of Errors 4 = Some ''InvalidAmount''" "map_of Errors 16 = Some ''InvalidDelegate''"
    "map_of Errors 0 = None" "map_of Errors 17 = None"
    by (simp_all add: Errors_def)
  from failing ex table show ?thesis by blast
qed

section \<open>The distribution hook validates before it calls\<close>

text \<open>
  Claim C5. A distribution with an empty recipient list fails before any distribution is
  attempted: for every state whose list of recipients is empty, whatever its type,
  \<open>executeTransaction\<close> returns a failure with the message \<open>No recipients provided\<close> and
  makes no call to the service.
\<close>

theorem empty_recipients_fail:
  assumes "recipients state = []"
  shows "executeTransaction svc sender token state =
           (\<lparr>success = False, transactionHash = None,
             result_error = Some ''No recipients provided''\<rparr>,
            \<lparr>isLoading = False, hook_error = Some ''No recipients provided''\<rparr>, [])"
  using assms by (simp add: executeTransaction_def try_block_def Let_def)

theorem empty_recipients_fail_witness:
  "executeTransaction
     \<lparr>distributeEqual = (\<lambda>s t a rs. Inr ''hash''), distributeWeighted = (\<lambda>s t rs as. Inr ''hash'')\<rparr>
     ''GSENDER'' ''native''
     \<lparr>distribution_type = Equal, recipients = [], totalAmount = ''100'', state_isValid = True,
      errors = []\<rparr> =
   (\<lparr>success = False, transactionHash = None, result_error = Some ''No recipients provided''\<rparr>,
    \<lparr>isLoading = False, hook_error = Some ''No recipients provided''\<rparr>, [])"
  by (rule empty_recipients_fail) simp

lemma weighted_checked_amounts_fail:
  assumes "distribution_type state = Weighted"
    and "r \<in> set (recipients state)"
    and "amount_missing r \<or> num_le (parseFloat (amount_string r)) (Fin 0)"
  shows "fst (executeTransaction svc sender token state) =
           \<lparr>success = False, transactionHash = None,
            result_error =
              Some ''All recipients must have valid amounts for weighted distribution''\<rparr>"
    and "snd (snd (executeTransaction svc sender token state)) = []"
proof -
  from assms(2) have ne: "recipients state \<noteq> []" by auto
  from assms(2,3)
  have ex: "list_ex (\<lambda>r. amount_missing r \<or> num_le (parseFloat (amount_string r)) (Fin 0))
              (recipients state)"
    by (auto simp: list_ex_iff)
  show "fst (executeTransaction svc sender token state) =
           \<lparr>success = False, transactionHash = None,
            result_error =
              Some ''All recipients must have valid amounts for weighted distribution''\<rparr>"
    using ne ex assms(1) by (simp add: executeTransaction_def try_block_def Let_def)
  show "snd (snd (executeTransaction svc sender token state)) = []"
    using ne ex assms(1) by (simp add: executeTransaction_def try_block_def Let_def)
qed

lemma parseFloat_abc: "parseFloat ''abc'' = NaN"
  by code_simp

text \<open>
  Claim C6, at the input where the hook departs from it. A weighted distribution whose
  only recipient has the amount \<open>abc\<close>, which parses to no number at all, passes the
  check of the amounts: the service is called, with the amount \<open>NaN\<close>, and the
  outcome of the hook is the outcome of that call.
\<close>

theorem weighted_unparsable_amount_is_sent:
  "snd (snd (executeTransaction svc sender token
     \<lparr>distribution_type = Weighted,
      recipients = [\<lparr>recipient_id = ''1'', address = ''GRECIPIENT'', amount = Some ''abc'',
                     recipient_isValid = False, validationError = None\<rparr>],
      totalAmount = [], state_isValid = False, errors = []\<rparr>)) =
   [DistributeWeighted sender token [''GRECIPIENT''] [NaN]]"
  by (simp add: executeTransaction_def try_block_def amount_missing_def amount_string_def
      parseFloat_abc Let_def split: sum.split)

theorem weighted_unparsable_amount_is_sent_witness:
  "snd (snd (executeTransaction
     \<lparr>distributeEqual = (\<lambda>s t a rs. Inr ''hash''),
      distributeWeighted = (\<lambda>s t rs as. Inr ''hash'')\<rparr>
     ''GSENDER'' ''native''
     \<lparr>distribution_type = Weighted,
      recipients = [\<lparr>recipient_id = ''1'', address = ''GRECIPIENT'', amount = Some ''abc'',
                     recipient_isValid = False, validationError = None\<rparr>],
      totalAmount = [], state_isValid = False, errors = []\<rparr>)) =
   [DistributeWeighted ''GSENDER'' ''native'' [''GRECIPIENT''] [NaN]]"
  by (rule weighted_unparsable_amount_is_sent)

lemma parseFloat_minus_one_le: "num_le (parseFloat ''-1'') (Fin 0)"
  by code_simp

lemma negative_total_stroops:
  "Math_floor (num_mul (parseFloat ''-1'') (Fin 10000000)) = Fin (- 10000000)"
  by code_simp

lemma validateAmount_minus_one: "validateAmount ''-1'' \<noteq> None"
  by code_simp

text \<open>
  Claim C7, at the input where the hook departs from it. Amount validation rejects the
  amount \<open>-1\<close>, and a weighted distribution with that amount fails before any call; but
  an equal distribution checks only that the total amount is not empty, so with the total
  amount \<open>-1\<close> the service is called, with \<open>-10000000\<close> stroops, and the outcome of
  the hook is the outcome of that call.
\<close>

theorem equal_negative_total_is_sent:
  "validateAmount ''-1'' \<noteq> None \<and>
   snd (snd (executeTransaction svc sender token
     \<lparr>distribution_type = Weighted,
      recipients = [\<lparr>recipient_id = ''1'', address = ''GRECIPIENT'', amount = Some ''-1'',
                     recipient_isValid = False, validationError = None\<rparr>],
      totalAmount = [], state_isValid = False, errors = []\<rparr>)) = [] \<and>
   snd (snd (executeTransaction svc sender token
     \<lparr>distribution_type = Equal,
      recipients = [\<lparr>recipient_id = ''1'', address = ''GRECIPIENT'', amount = None,
                     recipient_isValid = True, validationError = None\<rparr>],
      totalAmount = ''-1'', state_isValid = False, errors = []\<rparr>)) =
   [DistributeEqual sender token (Fin (- 10000000)) [''GRECIPIENT'']]"
  by (simp add: executeTransaction_def try_block_def amount_missing_def amount_string_def
      parseFloat_minus_one_le negative_total_stroops validateAmount_minus_one Let_def
      split: sum.split)

theorem equal_negative_total_is_sent_witness:
  "executeTransaction
     \<lparr>distributeEqual = (\<lambda>s t a rs. Inr ''hash''),
      distributeWeighted = (\<lambda>s t rs as. Inr ''hash'')\<rparr>
     ''GSENDER'' ''native''
     \<lparr>distribution_type = Equal,
      recipients = [\<lparr>recipient_id = ''1'', address = ''GRECIPIENT'', amount = None,
                     recipient_isValid = True, validationError = None\<rparr>],
      totalAmount = ''-1'', state_isValid = False, errors = []\<rparr> =
   (\<lparr>success = True, transactionHash = Some ''hash'', result_error = None\<rparr>,
    \<lparr>isLoading = False, hook_error = None\<rparr>,
    [DistributeEqual ''GSENDER'' ''native'' (Fin (- 10000000)) [''GRECIPIENT'']])"
proof -
  have "fst (executeTransaction
     \<lparr>distributeEqual = (\<lambda>s t a rs. Inr ''hash''),
      distributeWeighted = (\<lambda>s t rs as. Inr ''hash'')\<rparr>
     ''GSENDER'' ''native''
     \<lparr>distribution_type = Equal,
      recipients = [\<lparr>recipient_id = ''1'', address = ''GRECIPIENT'', amount = None,
                     recipient_isValid = True, validationError = None\<rparr>],
      totalAmount = ''-1'', state_isValid = False, errors = []\<rparr>) =
     \<lparr>success = True, transactionHash = Some ''hash'', result_error = None\<rparr> \<and>
    fst (snd (executeTransaction
     \<lparr>distributeEqual = (\<lambda>s t a rs. Inr ''hash''),
      distributeWeighted = (\<lambda>s t rs as. Inr ''hash'')\<rparr>
     ''GSENDER'' ''native''
     \<lparr>distribution_type = Equal,
      recipients = [\<lparr>recipient_id = ''1'', address = ''GRECIPIENT'', amount = None,
                     recipient_isValid = True, validationError = None\<rparr>],
      totalAmount = ''-1'', state_isValid = False, errors = []\<rparr>)) =
     \<lparr>isLoading = False, hook_error = None\<rparr>"
    by (simp add: executeTransaction_def try_block_def negative_total_stroops Let_def)
  then show ?thesis
    using equal_negative_total_is_sent
      [of "\<lparr>distributeEqual = (\<lambda>s t a rs. Inr ''hash''),
            distributeWeighted = (\<lambda>s t rs as. Inr ''hash'')\<rparr>" "''GSENDER''" "''native''"]
    by (simp add: prod_eq_iff)
qed

section \<open>Amount validation\<close>

lemma validateAmount_NoneD:
  assumes "validateAmount a = None"
  shows "a \<noteq> []" and "trim a = a" and "amountRegex a" and "\<not> startsWith a ''.''"
    and "\<not> endsWith a ''.''" and "\<not> isNaN (js_Number a)" and "isFinite (js_Number a)"
    and "\<not> num_le (js_Number a) (Fin 0)"
    and "\<And>i. indexOf_point a = Some i \<Longrightarrow> length a - i - 1 \<le> 7"
  using assms
  by (auto simp: validateAmount_def Let_def MAX_DECIMAL_PLACES_def split: if_splits option.splits)

lemma regex_plain_decimal:
  assumes ne: "a \<noteq> []" and re: "amountRegex a"
    and st: "\<not> startsWith a ''.''" and en: "\<not> endsWith a ''.''"
  shows "plain_decimal a"
proof -
  define ip where "ip = takeWhile is_digit a"
  define r where "r = dropWhile is_digit a"
  have a: "a = ip @ r" by (simp add: ip_def r_def)
  have ip: "ip \<noteq> []"
  proof
    assume "ip = []"
    with a have ra: "r = a" by simp
    from re have "case r of [] \<Rightarrow> True | c # cs \<Rightarrow> c = CHR ''.'' \<and> list_all is_digit cs"
      by (simp add: amountRegex_def r_def)
    with ra ne have "hd a = CHR ''.''"
      by (cases a) auto
    with ne st show False by (cases a) (auto simp: startsWith_def)
  qed
  have "r = [] \<or> (hd r = CHR ''.'' \<and> tl r \<noteq> [] \<and> list_all is_digit (tl r))"
  proof (cases r)
    case Nil
    then show ?thesis by simp
  next
    case (Cons c cs)
    from re have "case r of [] \<Rightarrow> True | c # cs \<Rightarrow> c = CHR ''.'' \<and> list_all is_digit cs"
      by (simp add: amountRegex_def r_def)
    with Cons have c: "c = CHR ''.''" and cs: "list_all is_digit cs"
      by auto
    have "cs \<noteq> []"
    proof
      assume "cs = []"
      with a Cons c have "a = ip @ ''.''" by simp
      then have "endsWith a ''.''" by (simp add: endsWith_def)
      with en show False by simp
    qed
    with Cons c cs show ?thesis by simp
  qed
  with ip show ?thesis
    by (simp add: plain_decimal_def ip_def r_def Let_def)
qed

lemma validateAmount_plain: "validateAmount a = None \<Longrightarrow> plain_decimal a"
  using validateAmount_NoneD(1,3,4,5) [of a] by (rule regex_plain_decimal)

text \<open>
  The validators themselves reject every string that is not a well-formed positive
  number: if the string is not a plain decimal, or \<open>Number\<close> reads it as no number, or
  its numeric value is zero or negative, then \<open>validateAmount\<close> returns an error message
  and \<open>isValidAmount\<close> returns false. The operations of the module that take an amount
  string go through this validation: \<open>amountToStroops\<close> throws \<open>Invalid amount\<close> and
  \<open>calculateEqualAmount\<close> returns \<open>0\<close>. The transaction hook does not call them.
\<close>

theorem invalid_amount_rejected:
  assumes "\<not> plain_decimal a \<or> isNaN (js_Number a) \<or> num_le (js_Number a) (Fin 0)"
  shows "validateAmount a \<noteq> None \<and> \<not> isValidAmount a \<and>
         amountToStroops a d = Inl (Error ''Invalid amount'') \<and>
         calculateEqualAmount big a n = ''0''"
proof -
  have "validateAmount a \<noteq> None"
  proof
    assume ok: "validateAmount a = None"
    from ok have "plain_decimal a" by (rule validateAmount_plain)
    moreover from ok have "\<not> isNaN (js_Number a)" by (rule validateAmount_NoneD)
    moreover from ok have "\<not> num_le (js_Number a) (Fin 0)" by (rule validateAmount_NoneD)
    ultimately show False using assms by simp
  qed
  then show ?thesis
    by (simp add: isValidAmount_def amountToStroops_def calculateEqualAmount_def)
qed

theorem invalid_amount_rejected_witness:
  "validateAmount ''-1'' \<noteq> None \<and> \<not> isValidAmount ''-1'' \<and>
   validateAmount ''0'' \<noteq> None \<and> \<not> isValidAmount ''0'' \<and>
   validateAmount ''abc'' \<noteq> None \<and> \<not> isValidAmount ''abc'' \<and>
   amountToStroops ''-1'' 7 = Inl (Error ''Invalid amount'')"
proof -
  have h1: "\<not> plain_decimal ''-1''" by code_simp
  have h2: "num_le (js_Number ''0'') (Fin 0)" by code_simp
  have h3: "isNaN (js_Number ''abc'')" by code_simp
  show ?thesis
    using invalid_amount_rejected [where a = "''-1''" and d = 7] h1
      invalid_amount_rejected [where a = "''0''"] h2
      invalid_amount_rejected [where a = "''abc''"] h3
    by simp
qed

section \<open>Equal shares\<close>




section \<open>Properties of the progress figures\<close>

lemma to_number_Fin_double:
  assumes "to_number x = Fin t"
  shows "is_double t"
proof -
  from assms to_number_cases [of x]
  have "t = fl x" and "- double_limit < fl x" and "fl x < double_limit" by auto
  then show ?thesis by (simp add: is_double_def fl_idem abs_less_iff)
qed

lemma parseFloat_double:
  assumes "parseFloat str = Fin t"
  shows "is_double t"
proof -
  from assms obtain l where "lit_number l = Fin t"
    by (auto simp: parseFloat_def split: option.splits)
  then obtain v where "to_number v = Fin t"
    by (cases l) (auto simp: lit_number_def split: if_splits)
  then show ?thesis by (rule to_number_Fin_double)
qed

lemma to_number_bounded:
  assumes "0 \<le> x" and "x \<le> b" and "is_double b"
  shows "to_number x = Fin (fl x)" and "0 \<le> fl x" and "fl x \<le> b"
proof -
  from assms(3) have b: "fl b = b" "b < double_limit" by (auto simp: is_double_def)
  show 1: "0 \<le> fl x" using assms(1) by (rule fl_nonneg)
  show 2: "fl x \<le> b" using fl_mono [OF assms(2)] b by simp
  from 1 2 b double_limit_pos show "to_number x = Fin (fl x)"
    using to_number_cases [of x] by auto
qed

lemma is_double_int: "\<bar>n\<bar> \<le> 2 ^ 53 \<Longrightarrow> is_double (of_int n)"
proof -
  assume n: "\<bar>n\<bar> \<le> 2 ^ 53"
  then have "\<bar>rat_of_int n\<bar> \<le> of_int (2 ^ 53)"
    by (simp only: of_int_abs [symmetric] of_int_le_iff)
  moreover have "rat_of_int (2 ^ 53) < double_limit" by (simp add: double_limit_def)
  ultimately have "\<bar>rat_of_int n\<bar> < double_limit" by (rule le_less_trans)
  with n show ?thesis by (simp add: is_double_def fl_int)
qed

lemma is_double_100: "is_double 100"
  using is_double_int [of 100] by simp

lemma is_double_1: "is_double 1"
  using is_double_int [of 1] by simp

lemma stats_validD:
  assumes "stats_valid tot wd start endT"
  obtains t w s e d where "tot = Fin t" "0 < t" "wd = Fin w" "start = Fin s" "endT = Fin e"
    "num_sub endT start = Fin d" "0 < d"
proof -
  from assms have "isFinite tot" "isFinite wd" "isFinite start" "isFinite endT"
    "isFinite (num_sub endT start)"
    by (simp_all add: stats_valid_def)
  then obtain t w s e d where eq: "tot = Fin t" "wd = Fin w" "start = Fin s" "endT = Fin e"
    "num_sub endT start = Fin d"
    by (cases tot; cases wd; cases start; cases endT; cases "num_sub endT start") auto
  with assms have "0 < t" "0 < d" by (simp_all add: stats_valid_def)
  with eq show ?thesis by (intro that [of t w s e d])
qed


lemma num_sub_pos:
  assumes "num_lt (Fin s) now"
  shows "num_le (Fin 0) (num_sub now (Fin s))"
proof (cases now)
  case (Fin n)
  with assms have "0 \<le> n - s" by simp
  then show ?thesis using Fin by (simp add: to_number_nonneg)
qed (use assms in auto)

lemma Math_min_ge:
  assumes "num_le c a" and "num_le c b"
  shows "num_le c (Math_min a b)"
  using assms by (cases a; cases b; cases c) (auto simp: Math_min_def)

lemma vested_raw_nonneg:
  assumes t: "0 < t" and d: "0 < d"
  shows "num_le (Fin 0) (vested_raw (Fin t) now (Fin s) (Fin d))"
proof (cases "num_lt (Fin s) now")
  case False
  then show ?thesis by (simp add: vested_raw_def)
next
  case True
  define el where "el = Math_min (num_sub now (Fin s)) (Fin d)"
  have "num_le (Fin 0) el"
    unfolding el_def using num_sub_pos [OF True] d by (intro Math_min_ge) simp_all
  then have "num_le (num_mul (Fin t) (Fin 0)) (num_mul (Fin t) el)"
    using t by (rule num_mul_mono)
  then have "num_le (Fin 0) (num_mul (Fin t) el)" by simp
  then have "num_le (num_div (Fin 0) (Fin d)) (num_div (num_mul (Fin t) el) (Fin d))"
    using d by (rule num_div_mono)
  then have "num_le (Fin 0) (num_div (num_mul (Fin t) el) (Fin d))"
    using d by simp
  with True show ?thesis by (simp add: vested_raw_def el_def Let_def)
qed


lemma stats_vestedSize:
  "vestedSize (stats now start endT ta wa) =
     (if \<not> stats_valid (parseFloat ta) (parseFloat wa) start endT then Fin 0
      else Math_min (parseFloat ta)
             (Math_max (parseFloat wa)
                (vested_raw (parseFloat ta) now start (num_sub endT start))))"
  by (simp add: stats_def Let_def)

lemma to_number_int:
  assumes "\<bar>n\<bar> \<le> 2 ^ 53"
  shows "to_number (of_int n) = Fin (of_int n)"
proof -
  from assms have "is_double (of_int n)" by (rule is_double_int)
  then have "fl (of_int n) = of_int n" and "\<bar>rat_of_int n\<bar> < double_limit"
    by (simp_all add: is_double_def)
  then show ?thesis
    using to_number_cases [of "of_int n"] by auto
qed

lemma vested_raw_int:
  assumes b: "\<bar>start\<bar> \<le> 2 ^ 52" "\<bar>now\<bar> \<le> 2 ^ 52" and d: "0 < d"
  shows "vested_raw (Fin t) (Fin (of_int now)) (Fin (of_int start)) (Fin (of_int d)) =
         num_div (num_mul (Fin t) (Fin (of_int (min (max (now - start) 0) d)))) (Fin (of_int d))"
proof (cases "start < now")
  case True
  from b have "\<bar>now - start\<bar> \<le> 2 ^ 53" by simp
  then have "to_number (of_int (now - start)) = Fin (of_int (now - start))"
    by (rule to_number_int)
  then have "num_sub (Fin (of_int now)) (Fin (of_int start)) = Fin (of_int (now - start))"
    by simp
  moreover have "Math_min (Fin (rat_of_int (now - start))) (Fin (of_int d)) =
      Fin (of_int (min (max (now - start) 0) d))"
    using True by (simp add: Math_min_def min_def)
  ultimately show ?thesis using True by (simp add: vested_raw_def Let_def)
next
  case False
  then have "min (max (now - start) 0) d = 0" using d by simp
  then show ?thesis using False d by (simp add: vested_raw_def)
qed

lemma stats_vestedSize_valid:
  assumes "stats_valid (parseFloat ta) (parseFloat wa) start endT"
  shows "vestedSize (stats now start endT ta wa) =
         Math_min (parseFloat ta)
           (Math_max (parseFloat wa)
              (vested_raw (parseFloat ta) now start (num_sub endT start)))"
  using assms by (simp add: stats_vestedSize)

section \<open>The vested amount of the progress bar\<close>

text \<open>
  Claim C1 as stated fails on the progress bar, whose properties carry neither
  \<open>paused_at\<close> nor \<open>total_paused_duration\<close>. An active stream of 1000 units over the
  times 0 to 1000 that has spent 300 paused shows 1000 at time 1000 where the formula of
  the claim gives 700; the same stream paused at 200, on a component mounted at 500,
  shows 500 where the formula gives 200; and 10 units over the times 0 to 3 show
  a third of 10 at time 1, not its floor 3.
\<close>

theorem vested_not_spec_formula:
  "vestedSize (stats (Fin 1000) (Fin 0) (Fin 1000) ''1000'' ''0'') \<noteq>
     Fin (of_int (spec_vested Active None 1000 0 1000 300 1000)) \<and>
   vestedSize (stats (tick ''Paused'' (Fin 800) (Fin 500)) (Fin 0) (Fin 1000) ''1000'' ''0'') \<noteq>
     Fin (of_int (spec_vested Paused (Some 200) 800 0 1000 0 1000)) \<and>
   vestedSize (stats (Fin 1) (Fin 0) (Fin 3) ''10'' ''0'') \<noteq>
     Fin (of_int (spec_vested Active None 1 0 3 0 10))"
  unfolding stats_vestedSize by code_simp

text \<open>
  Claim C1, amended. For valid properties and integer times (in magnitude at most
  \<open>2 ^ 52\<close>, as millisecond time stamps are), the vested amount of the progress bar is
  computed from the clock \<open>now\<close> of the component alone: with
  \<open>elapsed = clamp(now - start, 0, end - start)\<close> and \<open>duration = end - start\<close> it is
  \<open>total * elapsed / duration\<close> in binary64 arithmetic, the product and the quotient each
  rounded to the nearest value and not floored, then clamped between the withdrawn amount
  and the total. Neither a pause time nor a paused duration enters it.
\<close>

theorem vested_size_formula:
  assumes "stats_valid (parseFloat ta) (parseFloat wa) (Fin (of_int start)) (Fin (of_int endT))"
    and "\<bar>start\<bar> \<le> 2 ^ 52" and "\<bar>endT\<bar> \<le> 2 ^ 52" and "\<bar>now\<bar> \<le> 2 ^ 52"
  shows "vestedSize (stats (Fin (of_int now)) (Fin (of_int start)) (Fin (of_int endT)) ta wa) =
         Math_min (parseFloat ta)
           (Math_max (parseFloat wa)
              (num_div
                 (num_mul (parseFloat ta)
                    (Fin (of_int (min (max (now - start) 0) (endT - start)))))
                 (Fin (of_int (endT - start)))))"
proof -
  from assms(2,3) have "\<bar>endT - start\<bar> \<le> 2 ^ 53" by simp
  then have "to_number (of_int (endT - start)) = Fin (of_int (endT - start))"
    by (rule to_number_int)
  then have du: "num_sub (Fin (of_int endT)) (Fin (of_int start)) = Fin (of_int (endT - start))"
    by simp
  with assms(1) have d: "0 < endT - start" by (simp add: stats_valid_def)
  from assms(1) obtain t where t: "parseFloat ta = Fin t"
    by (cases "parseFloat ta") (auto simp: stats_valid_def)
  note stats_vestedSize_valid [OF assms(1), of "Fin (of_int now)"]
  also note du
  also note t
  also note vested_raw_int [OF assms(2,4) d]
  finally show ?thesis by (simp only: t)
qed

theorem vested_size_formula_witness:
  "vestedSize (stats (Fin 500) (Fin 0) (Fin 1000) ''1000'' ''100'') = Fin 500 \<and>
   vestedSize (stats (Fin 1) (Fin 0) (Fin 3) ''10'' ''0'') = Fin (7505999378950827 / 2251799813685248)"
proof -
  have v1: "stats_valid (parseFloat ''1000'') (parseFloat ''100'') (Fin (of_int 0)) (Fin (of_int 1000))"
    by code_simp
  have v2: "stats_valid (parseFloat ''10'') (parseFloat ''0'') (Fin (of_int 0)) (Fin (of_int 3))"
    by code_simp
  have e1: "Math_min (parseFloat ''1000'')
           (Math_max (parseFloat ''100'')
              (num_div
                 (num_mul (parseFloat ''1000'')
                    (Fin (of_int (min (max (500 - 0) 0) (1000 - 0)))))
                 (Fin (of_int (1000 - 0))))) = Fin 500"
    by code_simp
  have e2: "Math_min (parseFloat ''10'')
           (Math_max (parseFloat ''0'')
              (num_div
                 (num_mul (parseFloat ''10'')
                    (Fin (of_int (min (max (1 - 0) 0) (3 - 0)))))
                 (Fin (of_int (3 - 0))))) = Fin (7505999378950827 / 2251799813685248)"
    by code_simp
  show ?thesis
    using vested_size_formula [OF v1, of 500] vested_size_formula [OF v2, of 1] e1 e2
    by simp
qed

lemma currentTime_after_Nil [simp]: "currentTime_after m [] = m"
  by (simp add: currentTime_after_def)









section \<open>Rounding errors of the progress figures\<close>

lemma fl_error_le:
  assumes x: "\<bar>x\<bar> \<le> B" and B: "2 powi (- 1022) \<le> B"
  shows "\<bar>fl x - x\<bar> \<le> B * 2 powi (- 53)"
proof (cases "2 powi (- 1022) \<le> \<bar>x\<bar>")
  case True
  then have "\<bar>fl x - x\<bar> \<le> \<bar>x\<bar> * 2 powi (- 53)" by (rule fl_error_rel)
  also have "\<dots> \<le> B * 2 powi (- 53)"
    using x by (rule mult_right_mono) (simp only: zero_le_power_int zero_le_numeral)
  finally show ?thesis .
next
  case False
  then have lt: "\<bar>x\<bar> < 2 powi (- 1022)" by simp
  show ?thesis
  proof (cases "x = 0")
    case True
    have "0 \<le> B" using B by (rule order_trans [rotated]) simp
    then show ?thesis using True by simp
  next
    case False
    then have p: "0 < \<bar>x\<bar>" by simp
    have "2 powi (ilog2 \<bar>x\<bar>) \<le> \<bar>x\<bar>" using p by (rule ilog2_bounds)
    then have "2 powi (ilog2 \<bar>x\<bar>) < (2::rat) powi (- 1022)" using lt by (rule le_less_trans)
    then have "ilog2 \<bar>x\<bar> < - 1022" by (simp only: pow2_less_iff)
    then have u: "ulp_exp x = - 1074" by (simp add: ulp_exp_def)
    have c: "(2::rat) powi (- 1074) / 2 = 2 powi (- 1022) * 2 powi (- 53)"
      using power_int_add [of "2::rat" "- 1022" "- 53"] power_int_add [of "2::rat" "- 1075" 1]
      by simp
    have "\<bar>fl x - x\<bar> \<le> 2 powi ulp_exp x / 2" by (rule fl_error_ulp)
    also have "\<dots> = 2 powi (- 1022) * 2 powi (- 53)" unfolding u by (rule c)
    also have "\<dots> \<le> B * 2 powi (- 53)"
      using B by (rule mult_right_mono) (simp only: zero_le_power_int zero_le_numeral)
    finally show ?thesis .
  qed
qed

lemma num_sub_bounded:
  assumes "y \<le> x" and "x \<le> b" and "0 \<le> y" and "is_double b"
  shows "num_sub (Fin x) (Fin y) = Fin (fl (x - y))" and "0 \<le> fl (x - y)" and "fl (x - y) \<le> b"
proof -
  from assms have "0 \<le> x - y" and "x - y \<le> b" by simp_all
  from to_number_bounded [OF this assms(4)]
  show "num_sub (Fin x) (Fin y) = Fin (fl (x - y))" and "0 \<le> fl (x - y)" and "fl (x - y) \<le> b"
    by simp_all
qed

lemma percent_bounded:
  assumes "0 \<le> x" and "x \<le> t" and "0 < t"
  obtains p where "num_mul (num_div (Fin x) (Fin t)) (Fin 100) = Fin p" "0 \<le> p" "p \<le> 100"
proof -
  from assms have "0 \<le> x / t" and "x / t \<le> 1" by simp_all
  from to_number_bounded [OF this is_double_1]
  have q: "to_number (x / t) = Fin (fl (x / t))" "0 \<le> fl (x / t)" "fl (x / t) \<le> 1" .
  then have "0 \<le> fl (x / t) * 100" and "fl (x / t) * 100 \<le> 100" by simp_all
  from to_number_bounded [OF this is_double_100]
  have p: "to_number (fl (x / t) * 100) = Fin (fl (fl (x / t) * 100))"
    "0 \<le> fl (fl (x / t) * 100)" "fl (fl (x / t) * 100) \<le> 100" .
  from assms(3) q(1) p(1)
  have "num_mul (num_div (Fin x) (Fin t)) (Fin 100) = Fin (fl (fl (x / t) * 100))" by simp
  then show ?thesis using p(2,3) by (rule that)
qed

lemma clamp_vested:
  assumes raw: "num_le (Fin 0) raw"
  obtains c where "Math_min (Fin t) (Math_max (Fin w) raw) = Fin c" "min t (max 0 w) \<le> c" "c \<le> t"
proof (cases raw)
  case (Fin v)
  with raw have "0 \<le> v" by simp
  then have "min t (max 0 w) \<le> min t (max w v)" by (simp add: min_def max_def)
  moreover have "Math_min (Fin t) (Math_max (Fin w) raw) = Fin (min t (max w v))"
    using Fin by (simp add: Math_min_def Math_max_def min_def max_def)
  ultimately show ?thesis by (intro that [of "min t (max w v)"]) simp_all
next
  case PosInf
  then have "Math_min (Fin t) (Math_max (Fin w) raw) = Fin t"
    by (simp add: Math_min_def Math_max_def)
  then show ?thesis by (intro that [of t]) simp_all
qed (use raw in auto)

lemma stats_figures:
  assumes valid: "stats_valid (parseFloat ta) (parseFloat wa) start endT"
  obtains t wc c vn rm p1 vp a r where
    "stats now start endT ta wa =
       \<lparr>withdrawnPercent = Fin p1, vestedPercent = Fin vp, remainingPercent = Fin r,
        withdrawnSize = Fin wc, vestedSize = Fin c, vestedNotWithdrawnSize = Fin vn,
        remainingSize = Fin rm, total = Fin t\<rparr>"
    "0 < t" "0 \<le> wc" "wc \<le> c" "c \<le> t" "vn = fl (c - wc)" "0 \<le> vn" "vn \<le> t"
    "rm = fl (t - c)" "0 \<le> rm" "rm \<le> t" "0 \<le> p1" "p1 \<le> 100"
    "a = fl (100 - p1)" "0 \<le> vp" "vp \<le> a" "a \<le> 100" "r = fl (a - vp)" "0 \<le> r" "r \<le> 100"
proof -
  from valid obtain t w s e d where eq: "parseFloat ta = Fin t" "0 < t" "parseFloat wa = Fin w"
    "start = Fin s" "endT = Fin e" "num_sub endT start = Fin d" "0 < d"
    by (rule stats_validD)
  have dt: "is_double t" using eq(1) by (rule parseFloat_double)
  have du: "num_sub (Fin e) (Fin s) = Fin d" using eq(6) unfolding eq(4,5) .
  define raw where "raw = vested_raw (Fin t) now (Fin s) (Fin d)"
  have raw: "num_le (Fin 0) raw" unfolding raw_def using eq(2,7) by (rule vested_raw_nonneg)
  define wc where "wc = min t (max 0 w)"
  from raw obtain c where c: "Math_min (Fin t) (Math_max (Fin w) raw) = Fin c"
    "wc \<le> c" "c \<le> t"
    unfolding wc_def by (rule clamp_vested)
  have wcn: "Math_min (Fin t) (Math_max (Fin 0) (Fin w)) = Fin wc"
    by (simp add: wc_def Math_min_def Math_max_def min_def max_def)
  have wc0: "0 \<le> wc" and wct: "wc \<le> t" using eq(2) by (simp_all add: wc_def)
  have c0: "0 \<le> c" using wc0 c(2) by simp
  define vn where "vn = fl (c - wc)"
  have vn: "num_sub (Fin c) (Fin wc) = Fin vn" "0 \<le> vn" "vn \<le> t"
    unfolding vn_def using c(2,3) wc0 dt by (rule num_sub_bounded)+
  define rm where "rm = fl (t - c)"
  have rm: "num_sub (Fin t) (Fin c) = Fin rm" "0 \<le> rm" "rm \<le> t"
    unfolding rm_def using c(3) order_refl c0 dt by (rule num_sub_bounded)+
  from wc0 wct eq(2) obtain p1 where p1:
    "num_mul (num_div (Fin wc) (Fin t)) (Fin 100) = Fin p1" "0 \<le> p1" "p1 \<le> 100"
    by (rule percent_bounded)
  from vn(2,3) eq(2) obtain p2 where p2:
    "num_mul (num_div (Fin vn) (Fin t)) (Fin 100) = Fin p2" "0 \<le> p2" "p2 \<le> 100"
    by (rule percent_bounded)
  define a where "a = fl (100 - p1)"
  have a: "num_sub (Fin 100) (Fin p1) = Fin a" "0 \<le> a" "a \<le> 100"
    unfolding a_def using p1(3) order_refl p1(2) is_double_100 by (rule num_sub_bounded)+
  define vp where "vp = min a p2"
  have vp0: "0 \<le> vp" and vpa: "vp \<le> a" using a(2) p2(2) by (simp_all add: vp_def)
  define r where "r = fl (a - vp)"
  have r: "num_sub (Fin a) (Fin vp) = Fin r" "0 \<le> r" "r \<le> 100"
    unfolding r_def using vpa a(3) vp0 is_double_100 by (rule num_sub_bounded)+
  have m1: "Math_min (Fin 100) (Math_max (Fin 0) (Fin p1)) = Fin p1"
    using p1(2,3) by (simp add: Math_min_def Math_max_def)
  have m2: "Math_max (Fin 0) (Fin vn) = Fin vn"
    using vn(2) by (simp add: Math_max_def)
  have m3: "Math_min (Fin a) (Math_max (Fin 0) (Fin p2)) = Fin vp"
    using p2(2) by (simp add: Math_min_def Math_max_def vp_def min_def)
  have m4: "Math_max (Fin 0) (Fin r) = Fin r"
    using r(2) by (simp add: Math_max_def)
  have m5: "Math_max (Fin 0) (Fin rm) = Fin rm"
    using rm(2) by (simp add: Math_max_def)
  have "stats now start endT ta wa =
       \<lparr>withdrawnPercent = Fin p1, vestedPercent = Fin vp, remainingPercent = Fin r,
        withdrawnSize = Fin wc, vestedSize = Fin c, vestedNotWithdrawnSize = Fin vn,
        remainingSize = Fin rm, total = Fin t\<rparr>"
    using valid
    by (simp add: stats_def Let_def eq(1,3,4,5) du raw_def [symmetric] c(1) wcn p1(1) vn(1)
        m1 m2 p2(1)
        a(1) m3 r(1) m4 rm(1) m5
        del: num_sub.simps num_mul.simps num_div.simps)
  then show ?thesis
    using eq(2) wc0 c(2,3) vn_def vn(2,3) rm_def rm(2,3) p1(2,3) a_def vp0 vpa a(3) r_def r(2,3)
    by (rule that)
qed

section \<open>The progress figures and the total\<close>

text \<open>
  Claim C10 as stated fails: the percentages do not always sum to exactly 100. For a
  total of 6 with 1 withdrawn, a third of the way through the stream, the inputs are
  valid and the three percentages are 16.666666666666664, 16.666666666666664 and
  66.66666666666669: their sum is not 100, neither exactly nor as the sum that
  binary64 addition computes.
\<close>

theorem percentages_do_not_sum_to_100:
  "stats_valid (parseFloat ''6'') (parseFloat ''1'') (Fin 0) (Fin 3) \<and>
   the_fin (withdrawnPercent (stats (Fin 1) (Fin 0) (Fin 3) ''6'' ''1''))
     + the_fin (vestedPercent (stats (Fin 1) (Fin 0) (Fin 3) ''6'' ''1''))
     + the_fin (remainingPercent (stats (Fin 1) (Fin 0) (Fin 3) ''6'' ''1'')) \<noteq> 100 \<and>
   num_add
     (num_add (withdrawnPercent (stats (Fin 1) (Fin 0) (Fin 3) ''6'' ''1''))
        (vestedPercent (stats (Fin 1) (Fin 0) (Fin 3) ''6'' ''1'')))
     (remainingPercent (stats (Fin 1) (Fin 0) (Fin 3) ''6'' ''1'')) \<noteq> Fin 100"
proof -
  have s: "stats (Fin 1) (Fin 0) (Fin 3) ''6'' ''1'' =
       \<lparr>withdrawnPercent = Fin (2345624805922133 / 140737488355328),
        vestedPercent = Fin (2345624805922133 / 140737488355328),
        remainingPercent = Fin (1172812402961067 / 17592186044416),
        withdrawnSize = Fin 1, vestedSize = Fin 2, vestedNotWithdrawnSize = Fin 1,
        remainingSize = Fin 4, total = Fin 6\<rparr>"
    by code_simp
  have v: "stats_valid (parseFloat ''6'') (parseFloat ''1'') (Fin 0) (Fin 3)"
    by code_simp
  have a: "num_add
       (num_add (Fin (2345624805922133 / 140737488355328))
          (Fin (2345624805922133 / 140737488355328)))
       (Fin (1172812402961067 / 17592186044416)) \<noteq> Fin 100"
    by code_simp
  show ?thesis unfolding s using v a by simp
qed

text \<open>
  Claim C10, amended. Whenever the inputs are valid (a finite total above 0, a finite
  withdrawn amount, finite times with the end after the start), the figures partition
  the total up to rounding: each of \<open>withdrawnSize\<close>, \<open>vestedNotWithdrawnSize\<close> and
  \<open>remainingSize\<close> lies between 0 and the total and their sum differs from the total
  by at most the total times \<open>2 powi (- 52)\<close>; each of the three percentages lies
  between 0 and 100 and their sum differs from 100 by at most \<open>25 * 2 powi (- 50)\<close>.
\<close>

theorem progress_partition_rounded:
  assumes "stats_valid (parseFloat ta) (parseFloat wa) start endT"
  shows "partition_rounded (stats now start endT ta wa)"
proof -
  from assms obtain t wc c vn rm p1 vp a r where
    st: "stats now start endT ta wa =
       \<lparr>withdrawnPercent = Fin p1, vestedPercent = Fin vp, remainingPercent = Fin r,
        withdrawnSize = Fin wc, vestedSize = Fin c, vestedNotWithdrawnSize = Fin vn,
        remainingSize = Fin rm, total = Fin t\<rparr>"
    and b: "0 < t" "0 \<le> wc" "wc \<le> c" "c \<le> t" "0 \<le> vn" "vn \<le> t" "0 \<le> rm" "rm \<le> t"
      "0 \<le> p1" "p1 \<le> 100" "0 \<le> vp" "vp \<le> a" "a \<le> 100" "0 \<le> r" "r \<le> 100"
    and f: "vn = fl (c - wc)" "rm = fl (t - c)" "a = fl (100 - p1)" "r = fl (a - vp)"
    by (rule stats_figures)
  define B :: rat where "B = max t (2 powi (- 1022))"
  define u :: rat where "u = 2 powi (- 53)"
  have B: "2 powi (- 1022) \<le> B" "t \<le> B" by (simp_all add: B_def)
  have u2: "2 powi (- 52) = 2 * u"
    using power_int_add [of "2::rat" "- 53" 1] by (simp add: u_def)
  have u25: "25 * 2 powi (- 50) = 200 * u"
    using power_int_add [of "2::rat" "- 53" 3] by (simp add: u_def)
  have "\<bar>c - wc\<bar> \<le> B" using b B by simp
  then have e1: "\<bar>vn - (c - wc)\<bar> \<le> B * u"
    unfolding f u_def using B(1) by (rule fl_error_le)
  have "\<bar>t - c\<bar> \<le> B" using b B by simp
  then have e2: "\<bar>rm - (t - c)\<bar> \<le> B * u"
    unfolding f u_def using B(1) by (rule fl_error_le)
  have h: "(2::rat) powi (- 1022) \<le> 100"
  proof -
    have "(2::rat) powi (- 1022) \<le> 2 powi 0" by (simp only: pow2_le_iff)
    then show ?thesis by simp
  qed
  have "\<bar>100 - p1\<bar> \<le> 100" using b by simp
  then have e3: "\<bar>a - (100 - p1)\<bar> \<le> 100 * u"
    unfolding f u_def using h by (rule fl_error_le)
  have "\<bar>a - vp\<bar> \<le> 100" using b by simp
  then have e4: "\<bar>r - (a - vp)\<bar> \<le> 100 * u"
    unfolding f(4) u_def using h by (rule fl_error_le)
  have s1: "\<bar>wc + vn + rm - t\<bar> \<le> B * (2 * u)"
    using e1 e2 by (simp add: abs_le_iff algebra_simps)
  have s2: "\<bar>p1 + vp + r - 100\<bar> \<le> 200 * u"
    using e3 e4 by (simp add: abs_le_iff algebra_simps)
  have a0: "0 \<le> a" using b by simp
  show ?thesis
    unfolding partition_rounded_def st
    using b a0 s1 s2 by (simp add: u2 u25 B_def del: power_int_numeral_neg_numeral)
qed

theorem progress_partition_rounded_witness:
  "partition_rounded (stats (Fin 1) (Fin 0) (Fin 3) ''6'' ''1'')"
proof -
  have v: "stats_valid (parseFloat ''6'') (parseFloat ''1'') (Fin 0) (Fin 3)"
    by code_simp
  show ?thesis using v by (rule progress_partition_rounded)
qed

section \<open>Decimal strings and their values\<close>

lemma code_digit_char: "0 \<le> d \<Longrightarrow> d < 10 \<Longrightarrow> code (digit_char d) = 48 + d"
  by (simp add: code_def digit_char_def)

lemma is_digit_digit_char: "0 \<le> d \<Longrightarrow> d < 10 \<Longrightarrow> is_digit (digit_char d)"
  by (simp add: is_digit_def code_digit_char)

lemma digit_val_digit_char: "0 \<le> d \<Longrightarrow> d < 10 \<Longrightarrow> digit_val (digit_char d) = d"
  by (simp add: digit_val_def code_digit_char)

lemma nat_of_digits_Nil [simp]: "nat_of_digits [] = 0"
  by (simp add: nat_of_digits_def)

lemma nat_of_digits_snoc: "nat_of_digits (ds @ [c]) = 10 * nat_of_digits ds + digit_val c"
  by (simp add: nat_of_digits_def)

lemma nat_of_digits_append:
  "nat_of_digits (xs @ ys) = nat_of_digits xs * 10 ^ length ys + nat_of_digits ys"
proof (induction ys rule: rev_induct)
  case Nil
  then show ?case by simp
next
  case (snoc y ys)
  have "nat_of_digits (xs @ ys @ [y]) = 10 * nat_of_digits (xs @ ys) + digit_val y"
    using nat_of_digits_snoc [of "xs @ ys" y] by simp
  then show ?case by (simp add: snoc.IH nat_of_digits_snoc algebra_simps)
qed

lemma show_nat_props:
  assumes "0 \<le> n"
  shows "list_all is_digit (show_nat n) \<and> show_nat n \<noteq> [] \<and> nat_of_digits (show_nat n) = n"
  using assms
proof (induction n rule: show_nat.induct)
  case (1 n)
  show ?case
  proof (cases "n < 10")
    case True
    with 1(2) show ?thesis
      by (simp add: show_nat.simps [of n] is_digit_digit_char nat_of_digits_def
          digit_val_digit_char)
  next
    case False
    then have "0 \<le> n div 10" using 1(2) by simp
    with 1(1) False have ih: "list_all is_digit (show_nat (n div 10))"
      "nat_of_digits (show_nat (n div 10)) = n div 10" by simp_all
    have d: "0 \<le> n mod 10" "n mod 10 < 10" by simp_all
    show ?thesis
      using False ih d
      by (simp add: show_nat.simps [of n] is_digit_digit_char nat_of_digits_snoc
          digit_val_digit_char)
  qed
qed

lemma length_show_nat:
  assumes "0 \<le> n" and "n < 10 ^ k" and "0 < k"
  shows "length (show_nat n) \<le> k"
  using assms
proof (induction n arbitrary: k rule: show_nat.induct)
  case (1 n)
  show ?case
  proof (cases "n < 10")
    case True
    with 1(4) show ?thesis by (simp add: show_nat.simps [of n])
  next
    case False
    from 1(4) obtain j where k: "k = Suc j" by (cases k) auto
    have j: "0 < j"
    proof (rule ccontr)
      assume "\<not> 0 < j"
      with k 1(3) False show False by simp
    qed
    define P :: int where "P = 10 ^ j"
    have "n < 10 * P" using 1(3) k by (simp add: P_def)
    then have "n div 10 < P" by arith
    then have "n div 10 < 10 ^ j" by (simp add: P_def)
    moreover have "0 \<le> n div 10" using 1(2) by simp
    ultimately have "length (show_nat (n div 10)) \<le> j"
      using 1(1) [of j] False j by simp
    then show ?thesis using False k by (simp add: show_nat.simps [of n])
  qed
qed

lemma not_digit_point: "\<not> is_digit CHR ''.''"
  by (simp add: is_digit_def code_def)

lemma digit_not_ws: "is_digit c \<Longrightarrow> \<not> is_ws c"
  by (auto simp: is_digit_def is_ws_def)

lemma point_not_ws: "\<not> is_ws CHR ''.''"
  by (simp add: is_ws_def code_def)

lemma digit_not_special:
  assumes "is_digit c"
  shows "c \<noteq> CHR ''+''" "c \<noteq> CHR ''-''" "c \<noteq> CHR ''I''" "c \<noteq> CHR ''x''" "c \<noteq> CHR ''X''"
    "c \<noteq> CHR ''o''" "c \<noteq> CHR ''O''" "c \<noteq> CHR ''b''" "c \<noteq> CHR ''B''" "c \<noteq> CHR ''.''"
  using assms by (auto simp: is_digit_def code_def)

lemma plain_decimalE:
  assumes "plain_decimal a"
  obtains ip fp where "ip \<noteq> []" "list_all is_digit ip" "list_all is_digit fp"
    "a = ip \<and> fp = [] \<or> a = ip @ CHR ''.'' # fp \<and> fp \<noteq> []"
    "amount_value a = dec_value ip fp"
proof -
  define ip where "ip = takeWhile is_digit a"
  define r where "r = dropWhile is_digit a"
  have a: "a = ip @ r" by (simp add: ip_def r_def)
  have ip: "ip \<noteq> []" "list_all is_digit ip"
    using assms by (auto simp: plain_decimal_def Let_def ip_def list_all_iff dest: set_takeWhileD)
  from assms have r: "r = [] \<or> (hd r = CHR ''.'' \<and> tl r \<noteq> [] \<and> list_all is_digit (tl r))"
    by (simp add: plain_decimal_def Let_def r_def)
  have av: "amount_value a = dec_value ip (drop 1 r)"
    by (simp add: amount_value_def ip_def r_def)
  from r show ?thesis
  proof
    assume "r = []"
    with a ip av show ?thesis by (intro that [of ip "[]"]) simp_all
  next
    assume h: "hd r = CHR ''.'' \<and> tl r \<noteq> [] \<and> list_all is_digit (tl r)"
    then have "r \<noteq> []" by auto
    with h have "r = CHR ''.'' # tl r" by (cases r) auto
    with a ip av h show ?thesis
      by (intro that [of ip "tl r"]) (auto simp: drop_Suc)
  qed
qed

lemma parse_exponent_Nil [simp]: "parse_exponent [] = (0, [])"
  by (simp add: parse_exponent_def)

lemma js_Number_plain:
  assumes ip: "ip \<noteq> []" "list_all is_digit ip" and fp: "list_all is_digit fp"
    and a: "a = ip \<and> fp = [] \<or> a = ip @ CHR ''.'' # fp \<and> fp \<noteq> []"
  shows "js_Number a = to_number (dec_value ip fp)"
proof -
  define r where "r = (if fp = [] then [] else CHR ''.'' # fp)"
  have ar: "a = ip @ r" using a by (auto simp: r_def)
  obtain c cs where ipc: "ip = c # cs" using ip(1) by (cases ip) auto
  with ip(2) have c: "is_digit c" by simp
  have chars: "\<And>x. x \<in> set a \<Longrightarrow> is_digit x \<or> x = CHR ''.''"
    using ip(2) fp ar by (auto simp: r_def list_all_iff split: if_splits)
  have nows: "list_all (\<lambda>c. \<not> is_ws c) a"
    using chars digit_not_ws point_not_ws by (auto simp: list_all_iff)
  then have tr: "trim a = a" by (rule trim_no_ws)
  have ane: "a \<noteq> []" using ar ipc by simp
  have tk: "takeWhile is_digit a = ip"
    using ip(2) by (auto simp: ar r_def list_all_iff takeWhile_append2 not_digit_point)
  have dr: "dropWhile is_digit a = r"
    using ip(2) by (auto simp: ar r_def list_all_iff dropWhile_append2 not_digit_point)
  have second: "\<not> startsWith a [d, e]" if "\<not> is_digit e" "e \<noteq> CHR ''.''" for d e
  proof
    assume "startsWith a [d, e]"
    then have "take (length [d, e]) a = [d, e]" by (simp only: startsWith_def)
    then have "e \<in> set (take (length [d, e]) a)" by simp
    then have "e \<in> set a" by (rule in_set_takeD)
    with chars that show False by auto
  qed
  have nd: "parse_non_decimal a = None"
    by (simp add: parse_non_decimal_def second is_digit_def code_def)
  have inf: "\<not> startsWith a ''Infinity''"
    using c digit_not_special(3) [OF c] by (auto simp: startsWith_def ar ipc)
  have tkf: "takeWhile is_digit fp = fp" "dropWhile is_digit fp = []"
    using fp by (auto simp: list_all_iff)
  have pu: "parse_unsigned a = Some (LitValue (dec_value ip fp), [])"
    using inf ip(1)
    by (simp add: parse_unsigned_def tk dr r_def Let_def tkf)
  have ps: "parse_signed a = parse_unsigned a"
    using digit_not_special(1,2) [OF c] by (simp add: parse_signed_def ar ipc)
  show ?thesis
    using ane by (simp add: js_Number_def tr nd ps pu lit_number_def Let_def)
qed

section \<open>Scaling to stroops in floating point\<close>

lemma pow10_7: "pow10 7 = Fin 10000000"
  using to_number_int [of 10000000] by (simp add: pow10_def)

lemma round_trip_float:
  assumes N: "1 \<le> N" "N < 2 ^ 51"
  shows "Math_round (num_mul (to_number (of_int N / 10 ^ 7)) (pow10 7)) = Fin (of_int N)"
proof -
  define n :: rat where "n = of_int N"
  define x :: rat where "x = n / 10 ^ 7"
  define u :: rat where "u = 2 powi (- 53)"
  have n1: "1 \<le> n" using N(1) by (simp add: n_def)
  have "N \<le> 2 ^ 51 - 1" using N(2) by simp
  then have "rat_of_int N \<le> of_int (2 ^ 51 - 1)" by (simp only: of_int_le_iff)
  then have n2: "n \<le> 2 ^ 51 - 1" by (simp add: n_def)
  have uv: "u = 1 / 2 ^ 53" by (simp add: u_def power_int_minus_divide)
  have u0: "0 \<le> u" by (simp add: uv)
  have x0: "0 < x" using n1 by (simp add: x_def)
  have xn: "x * 10 ^ 7 = n" by (simp add: x_def)
  have "(2::rat) powi (- 1022) \<le> 2 powi (- 24)" by (simp only: pow2_le_iff)
  also have "\<dots> \<le> 1 / 10 ^ 7" by (simp add: power_int_minus_divide)
  also have "\<dots> \<le> x" using n1 by (simp add: x_def divide_right_mono)
  finally have xnorm: "2 powi (- 1022) \<le> \<bar>x\<bar>" using x0 by simp
  then have "\<bar>fl x - x\<bar> \<le> \<bar>x\<bar> * 2 powi (- 53)" by (rule fl_error_rel)
  then have e1: "\<bar>fl x - x\<bar> \<le> x * u" using x0 by (simp add: u_def)
  have "x \<le> of_int (2 ^ 51)" using n2 by (simp add: x_def pos_divide_le_eq)
  with x0 have tx: "to_number x = Fin (fl x)" and fx0: "0 \<le> fl x"
    using is_double_int [of "2 ^ 51"] by (auto intro: to_number_bounded)
  define c :: rat where "c = 10 ^ 7"
  have c0: "0 < c" by (simp add: c_def)
  have xc: "x * c = n" using xn by (simp add: c_def)
  define y :: rat where "y = fl x * c"
  have yn: "y - n = (fl x - x) * c" by (simp add: y_def xc [symmetric] algebra_simps)
  have "\<bar>y - n\<bar> = \<bar>fl x - x\<bar> * c"
    unfolding yn using c0 by (simp only: abs_mult abs_of_pos)
  also have "\<dots> \<le> x * u * c" using e1 c0 by (intro mult_right_mono) simp_all
  also have "\<dots> = n * u" using xc by (simp add: algebra_simps)
  finally have ey: "\<bar>y - n\<bar> \<le> n * u" .
  have y0: "0 \<le> y" using fx0 c0 by (simp add: y_def)
  have yu: "y \<le> n * (1 + u)" using ey by (simp add: abs_le_iff algebra_simps)
  have yl: "n * (1 - u) \<le> y" using ey by (simp add: abs_le_iff algebra_simps)
  have "n * (1 + u) \<le> (2 ^ 51 - 1) * (1 + u)"
    using n2 u0 by (intro mult_right_mono) simp_all
  also have "\<dots> \<le> of_int (2 ^ 52)" by (simp add: uv)
  finally have "y \<le> of_int (2 ^ 52)" using yu by simp
  with y0 have ty: "to_number y = Fin (fl y)"
    using is_double_int [of "2 ^ 52"] by (auto intro: to_number_bounded)
  have "1 * (1 - u) \<le> n * (1 - u)" using n1 by (intro mult_right_mono) (simp_all add: uv)
  then have "1 - u \<le> y" using yl by simp
  moreover have "(2::rat) powi (- 1022) \<le> 2 powi (- 1)" by (simp only: pow2_le_iff)
  moreover have "(2::rat) powi (- 1) \<le> 1 - u" by (simp add: uv)
  ultimately have "2 powi (- 1022) \<le> \<bar>y\<bar>" using y0 by simp
  then have "\<bar>fl y - y\<bar> \<le> \<bar>y\<bar> * 2 powi (- 53)" by (rule fl_error_rel)
  then have "\<bar>fl y - y\<bar> \<le> y * u" using y0 by (simp add: u_def)
  also have "\<dots> \<le> n * (1 + u) * u" using yu u0 by (rule mult_right_mono)
  finally have e2: "\<bar>fl y - y\<bar> \<le> n * (1 + u) * u" .
  have "\<bar>fl y - n\<bar> \<le> \<bar>fl y - y\<bar> + \<bar>y - n\<bar>" by simp
  also have "\<dots> \<le> n * (1 + u) * u + n * u" using e2 ey by simp
  also have "\<dots> = n * (u * (2 + u))" by (simp add: algebra_simps)
  also have "\<dots> \<le> (2 ^ 51 - 1) * (u * (2 + u))"
    using n2 u0 by (intro mult_right_mono) simp_all
  also have "\<dots> < 1 / 2" by (simp add: uv)
  finally have close: "\<bar>fl y - n\<bar> < 1 / 2" .
  from close have "n - 1 / 2 < fl y" and "fl y < n + 1 / 2"
    by linarith+
  then have "\<lfloor>fl y + 1 / 2\<rfloor> = N"
    by (intro floor_unique) (simp_all add: n_def)
  then have "Math_round (Fin (fl y)) = Fin (of_int N)" by simp
  then show ?thesis
    unfolding n_def [symmetric] x_def [symmetric] tx pow10_7
    using ty by (simp add: y_def c_def)
qed

section \<open>Printing stroops\<close>

lemma is_digit_zero: "is_digit CHR ''0''" and digit_val_zero: "digit_val CHR ''0'' = 0"
  by (simp_all add: is_digit_def digit_val_def code_def)

lemma nat_of_digits_zeros [simp]: "nat_of_digits (replicate k CHR ''0'') = 0"
  by (induction k) (simp_all add: nat_of_digits_def digit_val_zero)

lemma amount_value_digits:
  assumes "list_all is_digit ip" and "list_all is_digit fp"
  shows "amount_value ip = dec_value ip []"
    and "amount_value (ip @ CHR ''.'' # fp) = dec_value ip fp"
proof -
  have tk: "takeWhile is_digit ip = ip" and dk: "dropWhile is_digit ip = []"
    using assms(1) by (simp_all add: list_all_iff)
  show "amount_value ip = dec_value ip []"
    by (simp add: amount_value_def tk dk)
  have "takeWhile is_digit (ip @ CHR ''.'' # fp) = ip"
    using assms(1) by (simp add: list_all_iff takeWhile_append2 not_digit_point)
  moreover have "dropWhile is_digit (ip @ CHR ''.'' # fp) = CHR ''.'' # fp"
    using assms(1) by (simp add: list_all_iff dropWhile_append2 not_digit_point)
  ultimately show "amount_value (ip @ CHR ''.'' # fp) = dec_value ip fp"
    by (simp add: amount_value_def)
qed

lemma strip_trailing_zeros_decomp:
  obtains k where "s = strip_trailing_zeros s @ replicate k CHR ''0''"
proof -
  define P where "P = (\<lambda>c. c = CHR ''0'')"
  define z where "z = takeWhile P (rev s)"
  have "\<And>x. x \<in> set z \<Longrightarrow> x = CHR ''0''"
    unfolding z_def P_def by (auto dest: set_takeWhileD)
  then have z: "z = replicate (length z) CHR ''0''"
    by (simp add: replicate_length_same)
  have "rev s = z @ dropWhile P (rev s)" by (simp add: z_def)
  then have "rev (rev s) = rev (z @ dropWhile P (rev s))" by simp
  then have "s = strip_trailing_zeros s @ rev z"
    by (simp add: strip_trailing_zeros_def P_def)
  also have "rev z = replicate (length z) CHR ''0''"
    using z by (metis rev_replicate)
  finally show ?thesis by (rule that)
qed

lemma frac_value_strip:
  "rat_of_int (nat_of_digits (strip_trailing_zeros s)) / 10 ^ length (strip_trailing_zeros s) =
   rat_of_int (nat_of_digits s) / 10 ^ length s"
proof -
  obtain k where k: "s = strip_trailing_zeros s @ replicate k CHR ''0''"
    by (rule strip_trailing_zeros_decomp)
  define t where "t = strip_trailing_zeros s"
  have "nat_of_digits s = nat_of_digits t * 10 ^ k"
    using k by (simp add: t_def [symmetric] nat_of_digits_append)
  moreover have "length s = length t + k"
    using k unfolding t_def [symmetric] by (metis length_append length_replicate)
  ultimately show ?thesis
    by (simp add: t_def [symmetric] power_add)
qed

lemma strip_trailing_zeros_digits:
  "list_all is_digit s \<Longrightarrow> list_all is_digit (strip_trailing_zeros s)"
  by (auto simp: strip_trailing_zeros_def list_all_iff dest: set_dropWhileD)

lemma BigInt_pow10_7: "BigInt (pow10 7) = Inr 10000000"
  by (simp add: pow10_7 BigInt_def)

lemma stroops_print:
  assumes N: "0 \<le> N"
  obtains s where "stroopsToAmount N 7 = Inr s" "amount_value s = of_int N / 10 ^ 7"
proof -
  define w where "w = N div 10000000"
  define f where "f = N mod 10000000"
  have w0: "0 \<le> w" and f0: "0 \<le> f" and f1: "f < 10 ^ 7"
    using N by (simp_all add: w_def f_def)
  have Nwf: "N = w * 10000000 + f" by (simp add: w_def f_def)
  have bd: "bigint_div N 10000000 = w"
    using N by (cases "N = 0") (simp_all add: bigint_div_def w_def)
  have br: "bigint_rem N 10000000 = f"
    unfolding bigint_rem_def bd using Nwf by simp
  have wd: "list_all is_digit (show_nat w)" "nat_of_digits (show_nat w) = w"
    using show_nat_props [OF w0] by simp_all
  show ?thesis
  proof (cases "f = 0")
    case True
    have "stroopsToAmount N 7 = Inr (show_nat w)"
      using True w0 by (simp add: stroopsToAmount_def BigInt_pow10_7 bd br show_int_def Let_def)
    moreover have "amount_value (show_nat w) = of_int N / 10 ^ 7"
      using True by (simp add: amount_value_digits(1) [OF wd(1) wd(1)] dec_value_def wd(2) Nwf)
    ultimately show ?thesis by (rule that)
  next
    case False
    define fs where "fs = padStart (show_nat f) 7 CHR ''0''"
    have fd: "list_all is_digit (show_nat f)" "nat_of_digits (show_nat f) = f"
      using show_nat_props [OF f0] by simp_all
    have fl7: "length (show_nat f) \<le> 7" using f0 f1 by (rule length_show_nat) simp
    have fs1: "length fs = 7" using fl7 by (simp add: fs_def padStart_def)
    have fs2: "nat_of_digits fs = f"
      by (simp add: fs_def padStart_def nat_of_digits_append fd(2))
    have fs3: "list_all is_digit fs"
      using fd(1) by (auto simp: fs_def padStart_def list_all_iff is_digit_zero)
    define tf where "tf = strip_trailing_zeros fs"
    have tf1: "list_all is_digit tf" unfolding tf_def using fs3 by (rule strip_trailing_zeros_digits)
    have tf2: "rat_of_int (nat_of_digits tf) / 10 ^ length tf = of_int f / 10 ^ 7"
      unfolding tf_def frac_value_strip by (simp add: fs1 fs2)
    have "stroopsToAmount N 7 = Inr (show_nat w @ CHR ''.'' # tf)"
      using False w0 f0
      by (simp add: stroopsToAmount_def BigInt_pow10_7 bd br show_int_def Let_def
          fs_def [symmetric] tf_def [symmetric])
    moreover have "amount_value (show_nat w @ CHR ''.'' # tf) = of_int N / 10 ^ 7"
      by (simp add: amount_value_digits(2) [OF wd(1) tf1] dec_value_def wd(2) tf2 Nwf
          add_divide_distrib)
    ultimately show ?thesis by (rule that)
  qed
qed

section \<open>The round trip between amounts and stroops\<close>

lemma indexOf_point_decimal:
  assumes "list_all is_digit ip"
  shows "indexOf_point (ip @ CHR ''.'' # fp) = Some (length ip)"
proof -
  have "\<And>x. x \<in> set ip \<Longrightarrow> x \<noteq> CHR ''.''"
    using assms digit_not_special(10) by (auto simp: list_all_iff)
  then have "takeWhile (\<lambda>c. c \<noteq> CHR ''.'') (ip @ CHR ''.'' # fp) = ip"
    by (simp add: takeWhile_append2)
  then show ?thesis by (simp add: indexOf_point_def)
qed

lemma to_number_pos_imp:
  assumes "\<not> num_le (to_number v) (Fin 0)" and "isFinite (to_number v)"
  shows "0 < v"
proof -
  from assms(2) to_number_cases [of v] have "to_number v = Fin (fl v)" by auto
  with assms(1) have "0 < fl v" by simp
  then show ?thesis by (rule fl_pos_imp)
qed

lemma BigInt_int [simp]: "BigInt (Fin (of_int n)) = Inr n"
  by (simp add: BigInt_def)

lemma valid_amount_stroops:
  assumes v: "validateAmount a = None"
  obtains N where "1 \<le> N" "rat_of_int N = amount_value a * 10 ^ 7"
    "js_Number a = to_number (amount_value a)" "trim a = a"
proof -
  from v have "plain_decimal a" by (rule validateAmount_plain)
  then obtain ip fp where ip: "ip \<noteq> []" "list_all is_digit ip" and fp: "list_all is_digit fp"
    and a: "a = ip \<and> fp = [] \<or> a = ip @ CHR ''.'' # fp \<and> fp \<noteq> []"
    and av: "amount_value a = dec_value ip fp"
    by (rule plain_decimalE)
  have jn: "js_Number a = to_number (amount_value a)"
    unfolding av using ip fp a by (rule js_Number_plain)
  have tr: "trim a = a" using v by (rule validateAmount_NoneD)
  have len: "length fp \<le> 7"
  proof (cases "fp = []")
    case True
    then show ?thesis by simp
  next
    case False
    with a have a': "a = ip @ CHR ''.'' # fp" by auto
    have "indexOf_point a = Some (length ip)"
      unfolding a' using ip(2) by (rule indexOf_point_decimal)
    from validateAmount_NoneD(9) [OF v this] show ?thesis by (simp add: a')
  qed
  define N where "N = nat_of_digits ip * 10 ^ 7 + nat_of_digits fp * 10 ^ (7 - length fp)"
  define c :: rat where "c = 10 ^ 7"
  have c: "c = 10 ^ (7 - length fp) * 10 ^ length fp"
    unfolding c_def using len by (simp only: flip: power_add) simp
  have "rat_of_int (nat_of_digits fp) / 10 ^ length fp * c =
      of_int (nat_of_digits fp) * 10 ^ (7 - length fp)"
    unfolding c by simp
  moreover have "rat_of_int N =
      of_int (nat_of_digits ip) * c + of_int (nat_of_digits fp) * 10 ^ (7 - length fp)"
    by (simp add: N_def c_def)
  ultimately have "rat_of_int N = amount_value a * c"
    by (simp only: av dec_value_def distrib_right)
  then have Nv: "rat_of_int N = amount_value a * 10 ^ 7"
    unfolding c_def .
  have "\<not> num_le (js_Number a) (Fin 0)" and "isFinite (js_Number a)"
    using v by (rule validateAmount_NoneD)+
  then have "0 < amount_value a" unfolding jn by (rule to_number_pos_imp)
  then have "0 < rat_of_int N" by (simp add: Nv)
  then have "1 \<le> N" by simp
  then show ?thesis using Nv jn tr by (rule that)
qed

text \<open>
  Claim C9 as stated fails for large amounts. The string \<open>9007199254740993\<close> is a valid
  amount with no decimal places at all, but \<open>Number\<close> reads it as 9007199254740992:
  \<open>amountToStroops\<close> gives 90071992547409920000000, and \<open>stroopsToAmount\<close> gives back
  \<open>9007199254740992\<close>, another number.
\<close>

theorem stroops_round_trip_loses_digits:
  "validateAmount ''9007199254740993'' = None \<and>
   amountToStroops ''9007199254740993'' 7 = Inr 90071992547409920000000 \<and>
   stroopsToAmount 90071992547409920000000 7 = Inr ''9007199254740992'' \<and>
   amount_value ''9007199254740992'' \<noteq> amount_value ''9007199254740993''"
  by code_simp

text \<open>
  Claim C9, amended. For every valid amount string whose value in stroops is below
  \<open>2 ^ 51\<close> (an amount below 225179981.3685248), with or without trailing zeros in
  its fraction, \<open>amountToStroops\<close> returns exactly the value times \<open>10 ^ 7\<close> and
  \<open>stroopsToAmount\<close> of it returns a string that denotes the same number as the
  original (the least amount 0.0000001 is exactly 1 stroop and back).
\<close>

theorem stroops_round_trip:
  assumes "validateAmount a = None" and "amount_value a * 10 ^ 7 < 2 ^ 51"
  shows "\<exists>n s. amountToStroops a 7 = Inr n \<and> rat_of_int n = amount_value a * 10 ^ 7 \<and>
           stroopsToAmount n 7 = Inr s \<and> amount_value s = amount_value a"
proof -
  from assms(1) obtain N where N: "1 \<le> N" "rat_of_int N = amount_value a * 10 ^ 7"
    "js_Number a = to_number (amount_value a)" "trim a = a"
    by (rule valid_amount_stroops)
  have av: "amount_value a = of_int N / 10 ^ 7" using N(2) by simp
  have "rat_of_int N < of_int (2 ^ 51)" using assms(2) N(2) by simp
  then have "N < 2 ^ 51" by (simp only: of_int_less_iff)
  with N(1) have "Math_round (num_mul (to_number (of_int N / 10 ^ 7)) (pow10 7)) = Fin (of_int N)"
    by (rule round_trip_float)
  then have st: "amountToStroops a 7 = Inr N"
    using assms(1) by (simp add: amountToStroops_def isValidAmount_def N(3,4) av Let_def)
  from N(1) have "0 \<le> N" by simp
  then obtain s where s: "stroopsToAmount N 7 = Inr s" "amount_value s = of_int N / 10 ^ 7"
    by (rule stroops_print)
  show ?thesis using st N(2) s av by auto
qed

theorem stroops_round_trip_witness:
  "(\<exists>n s. amountToStroops ''0.0000001'' 7 = Inr n \<and>
      rat_of_int n = amount_value ''0.0000001'' * 10 ^ 7 \<and>
      stroopsToAmount n 7 = Inr s \<and> amount_value s = amount_value ''0.0000001'') \<and>
   amountToStroops ''0.0000001'' 7 = Inr 1 \<and> stroopsToAmount 1 7 = Inr ''0.0000001''"
proof -
  have h1: "validateAmount ''0.0000001'' = None" by code_simp
  have h2: "amount_value ''0.0000001'' * 10 ^ 7 < 2 ^ 51" by code_simp
  have e: "amountToStroops ''0.0000001'' 7 = Inr 1 \<and> stroopsToAmount 1 7 = Inr ''0.0000001''"
    by code_simp
  show ?thesis using stroops_round_trip [OF h1 h2] e by simp
qed

end
